theory Spec2Isabelle
  imports Main "HOL-Library.Word"
begin

section \<open>Data model\<close>

text \<open>
  A \<^verbatim>\<open>Buffer\<close> is a list of bytes. \<^verbatim>\<open>ModuleInfo.FunctionType\<close> of the
  binary-version-reader package is an enumeration, so it is a datatype here.
\<close>

type_synonym buffer = "8 word list"

datatype function_type =
  NONE | RESOURCE | BOOTLOADER | MONO_FIRMWARE | SYSTEM_PART | USER_PART
  | SETTINGS | NCP_FIRMWARE | RADIO_STACK | ASSET

text \<open>The fields of \<^verbatim>\<open>prefixInfo\<close> that the flashing code reads.\<close>

record prefix_info =
  moduleFunction :: function_type
  moduleIndex :: nat
  moduleFlags :: nat
  prefixSize :: nat
  platformID :: nat
  depModuleVersion :: nat
  moduleStartAddy :: string

record crc_info =
  ok :: bool

text \<open>\<^verbatim>\<open>suffixInfo\<close> is carried along and never inspected: an object as a list of
  its properties.\<close>

type_synonym suffix_info = "(string \<times> string) list"

text \<open>
  \<^verbatim>\<open>module_info\<close> is the \<^verbatim>\<open>moduleInfo\<close> object a flash step carries;
  a parsed module (\<^verbatim>\<open>{ filename: file, ...binary }\<close>) extends it with the file name and
  the file's bytes.
\<close>

record module_info =
  crc :: crc_info
  prefixInfo :: prefix_info
  suffixInfo :: suffix_info

record parsed_module = module_info +
  filename :: string
  fileBuffer :: buffer

text \<open>
  An entry of \<^verbatim>\<open>platform.firmwareModules\<close>, the segment
  \<^verbatim>\<open>dfu.segments.formerUserPart\<close>, and an entry of \<^verbatim>\<open>PLATFORMS\<close>. An entry of
  the table may be without \<^verbatim>\<open>firmwareModules\<close>, and without the segment.
\<close>

record firmware_module =
  fm_type :: string
  fm_index :: nat
  fm_storage :: string
  fm_encrypted :: bool

record segment =
  seg_address :: string
  seg_size :: nat

record platform =
  platform_id :: nat
  firmwareModules :: "firmware_module list option"
  formerUserPart :: "segment option"

text \<open>
  Every \<^verbatim>\<open>throw\<close> of the source is a value. \<open>TypeError\<close> is what JavaScript raises when
  a property of \<^verbatim>\<open>undefined\<close> is read; \<open>CrcCheckFailed f\<close> is
  \<^verbatim>\<open>Error(`CRC check failed for module ${f}`)\<close> (the spec's CrcMismatch);
  \<open>NotCompatible f p\<close> is \<^verbatim>\<open>Error(`Module ${f} is not compatible with platform ${p}`)\<close>
  (the spec's PlatformMismatch); \<open>UseLocalForZip\<close> is the error of \<^verbatim>\<open>flashOverUsb\<close>
  for a zipped bundle; \<open>Rejected s\<close> is a failure raised inside a collaborator.
\<close>

datatype error =
  TypeError
  | CrcCheckFailed string
  | NotCompatible string string
  | UseLocalForZip
  | Rejected string

text \<open>
  What \<^verbatim>\<open>flash-helper.js\<close> imports is a parameter: the table \<^verbatim>\<open>PLATFORMS\<close>,
  \<^verbatim>\<open>moduleTypeToString\<close> and \<^verbatim>\<open>sortBinariesByDependency\<close> of the dependency
  walker, \<^verbatim>\<open>path.basename\<close>, and the constant
  \<^verbatim>\<open>ModuleInfo.Flags.DROP_MODULE_INFO\<close>. \<^verbatim>\<open>moduleTypeToString\<close> names a
  function type or throws.
\<close>

record collaborators =
  PLATFORMS :: "platform list"
  moduleTypeToString :: "function_type \<Rightarrow> error + string"
  sortBinariesByDependency :: "parsed_module list \<Rightarrow> parsed_module list"
  basename :: "string \<Rightarrow> string"
  DROP_MODULE_INFO :: nat

section \<open>Module filter\<close>

text \<open>
  \<^verbatim>\<open>filterModulesToFlash\<close>: the \<^verbatim>\<open>for\<close> loop over \<^verbatim>\<open>modules\<close>, with
  \<^verbatim>\<open>filteredModules\<close> as accumulator. \<^verbatim>\<open>platform\<close> is the result of
  \<^verbatim>\<open>PLATFORMS.find\<close>, possibly \<^verbatim>\<open>undefined\<close>. Each iteration first calls
  \<^verbatim>\<open>moduleTypeToString\<close>, which may throw, and then reads
  \<^verbatim>\<open>platform.firmwareModules.find\<close>, which raises a TypeError when the platform or
  its \<^verbatim>\<open>firmwareModules\<close> is \<^verbatim>\<open>undefined\<close>.
\<close>

fun filterLoop ::
  "collaborators \<Rightarrow> platform option \<Rightarrow> bool \<Rightarrow> parsed_module list \<Rightarrow> parsed_module list
    \<Rightarrow> error + parsed_module list" where
  "filterLoop C platform allowAll filteredModules [] = Inr filteredModules"
| "filterLoop C platform allowAll filteredModules (moduleInfo # rest) =
    (case moduleTypeToString C (moduleFunction (prefixInfo moduleInfo)) of
       Inl e \<Rightarrow> Inl e
     | Inr moduleType \<Rightarrow>
        (case platform of
           None \<Rightarrow> Inl TypeError
         | Some p \<Rightarrow>
            (case firmwareModules p of
               None \<Rightarrow> Inl TypeError
             | Some slots \<Rightarrow>
                (let platformModule =
                       find (\<lambda>m. fm_type m = moduleType
                                 \<and> fm_index m = moduleIndex (prefixInfo moduleInfo)) slots;
                     isEncrypted =
                       (case platformModule of None \<Rightarrow> False | Some m \<Rightarrow> fm_encrypted m);
                     isRadioStack = (moduleFunction (prefixInfo moduleInfo) = RADIO_STACK);
                     isNcpFirmware = (moduleFunction (prefixInfo moduleInfo) = NCP_FIRMWARE)
                 in if \<not> isEncrypted \<and> (\<not> isRadioStack \<or> allowAll)
                       \<and> (\<not> isNcpFirmware \<or> allowAll)
                    then filterLoop C platform allowAll (filteredModules @ [moduleInfo]) rest
                    else filterLoop C platform allowAll filteredModules rest))))"

definition filterModulesToFlash ::
  "collaborators \<Rightarrow> parsed_module list \<Rightarrow> nat \<Rightarrow> bool \<Rightarrow> error + parsed_module list" where
  "filterModulesToFlash C modules platformId allowAll =
    (let platform = find (\<lambda>p. platform_id p = platformId) (PLATFORMS C)
     in filterLoop C platform allowAll [] modules)"

text \<open>
  The words of the spec, for comparison: the slot of a module among the slots of a platform,
  whether it is marked encrypted, and the condition under which the filter drops a module.
  \<open>spec_slots\<close> is the list of slots of a platform id, if the platform is in the table
  and has one; \<open>spec_named\<close> says that the type of a module has a name.
\<close>

definition spec_slot :: "collaborators \<Rightarrow> firmware_module list \<Rightarrow> parsed_module \<Rightarrow> firmware_module option" where
  "spec_slot C slots m =
    (case moduleTypeToString C (moduleFunction (prefixInfo m)) of
       Inl e \<Rightarrow> None
     | Inr moduleType \<Rightarrow>
         find (\<lambda>s. fm_type s = moduleType \<and> fm_index s = moduleIndex (prefixInfo m)) slots)"

definition spec_slot_encrypted :: "collaborators \<Rightarrow> firmware_module list \<Rightarrow> parsed_module \<Rightarrow> bool" where
  "spec_slot_encrypted C slots m =
    (case spec_slot C slots m of None \<Rightarrow> False | Some s \<Rightarrow> fm_encrypted s)"

definition spec_drops :: "collaborators \<Rightarrow> firmware_module list \<Rightarrow> bool \<Rightarrow> parsed_module \<Rightarrow> bool" where
  "spec_drops C slots allowAll m =
    (spec_slot_encrypted C slots m
     \<or> (moduleFunction (prefixInfo m) = RADIO_STACK \<and> allowAll = False)
     \<or> (moduleFunction (prefixInfo m) = NCP_FIRMWARE \<and> allowAll = False))"

definition spec_slots :: "collaborators \<Rightarrow> nat \<Rightarrow> firmware_module list option" where
  "spec_slots C platformId =
    (case find (\<lambda>p. platform_id p = platformId) (PLATFORMS C) of
       None \<Rightarrow> None
     | Some p \<Rightarrow> firmwareModules p)"

definition spec_named :: "collaborators \<Rightarrow> parsed_module \<Rightarrow> bool" where
  "spec_named C m =
    (case moduleTypeToString C (moduleFunction (prefixInfo m)) of Inl e \<Rightarrow> False | Inr ty \<Rightarrow> True)"

section \<open>Module validator\<close>

text \<open>\<^verbatim>\<open>_validateModulesForPlatform\<close>: the first failing check of the first failing
  module is thrown.\<close>

fun validateModulesForPlatform :: "parsed_module list \<Rightarrow> nat \<Rightarrow> string \<Rightarrow> error + unit" where
  "validateModulesForPlatform [] platformId platformName = Inr ()"
| "validateModulesForPlatform (moduleInfo # rest) platformId platformName =
    (if \<not> ok (crc moduleInfo) then Inl (CrcCheckFailed (filename moduleInfo))
     else if platformID (prefixInfo moduleInfo) \<noteq> platformId
             \<and> moduleFunction (prefixInfo moduleInfo) \<noteq> ASSET
       then Inl (NotCompatible (filename moduleInfo) platformName)
     else validateModulesForPlatform rest platformId platformName)"

section \<open>Flash step planner\<close>

text \<open>
  A flash step. \<^verbatim>\<open>address\<close> is assigned for DFU steps only and is what
  \<^verbatim>\<open>parseInt\<close> returned, which is \<^verbatim>\<open>NaN\<close> for a string without digits.
  Only the synthetic step is without \<^verbatim>\<open>moduleInfo\<close>.
\<close>

datatype js_number = NaN | Num int

datatype flash_mode = normal | dfu

record flash_step =
  name :: string
  moduleInfo :: "module_info option"
  data :: buffer
  flashMode :: flash_mode
  address :: "js_number option"

text \<open>
  \<^verbatim>\<open>String.prototype.replace\<close> with a string pattern replaces the first occurrence.
  \<^verbatim>\<open>parseInt(s, 16)\<close> skips leading white space, reads a sign and a prefix
  \<^verbatim>\<open>0x\<close> or \<^verbatim>\<open>0X\<close>, and then the longest run of hexadecimal digits; it is
  \<^verbatim>\<open>NaN\<close> when that run is empty. Strings are lists of bytes, the white space is
  that of ASCII, and the value is an integer: numbers above \<open>2 ^ 53\<close> are not rounded.
\<close>

definition isWhiteSpace :: "char \<Rightarrow> bool" where
  "isWhiteSpace c = (c \<in> set [CHR 0x20, CHR 0x09, CHR 0x0A, CHR 0x0B, CHR 0x0C, CHR 0x0D])"

definition hexDigits :: "(char \<times> int) list" where
  "hexDigits =
    [(CHR ''0'', 0), (CHR ''1'', 1), (CHR ''2'', 2), (CHR ''3'', 3), (CHR ''4'', 4),
     (CHR ''5'', 5), (CHR ''6'', 6), (CHR ''7'', 7), (CHR ''8'', 8), (CHR ''9'', 9),
     (CHR ''a'', 10), (CHR ''b'', 11), (CHR ''c'', 12), (CHR ''d'', 13), (CHR ''e'', 14),
     (CHR ''f'', 15), (CHR ''A'', 10), (CHR ''B'', 11), (CHR ''C'', 12), (CHR ''D'', 13),
     (CHR ''E'', 14), (CHR ''F'', 15)]"

definition hexValue :: "char \<Rightarrow> int option" where
  "hexValue c = map_of hexDigits c"

fun replaceFirst :: "string \<Rightarrow> string \<Rightarrow> string \<Rightarrow> string" where
  "replaceFirst pat rep [] = (if pat = [] then rep else [])"
| "replaceFirst pat rep (c # cs) =
    (if take (length pat) (c # cs) = pat then rep @ drop (length pat) (c # cs)
     else c # replaceFirst pat rep cs)"

definition parseInt16 :: "string \<Rightarrow> js_number" where
  "parseInt16 inputString =
    (let S = dropWhile isWhiteSpace inputString;
         sign = (if take 1 S = ''-'' then - 1 else 1);
         S1 = (if take 1 S = ''+'' \<or> take 1 S = ''-'' then drop 1 S else S);
         S2 = (if take 2 S1 = ''0x'' \<or> take 2 S1 = ''0X'' then drop 2 S1 else S1);
         Z = takeWhile (\<lambda>c. hexValue c \<noteq> None) S2
     in if Z = [] then NaN
        else Num (sign * foldl (\<lambda>a c. 16 * a + (case hexValue c of None \<Rightarrow> 0 | Some d \<Rightarrow> d)) 0 Z))"

definition DEVICE_OS_MIN_VERSION_TO_FORMAT_128K_USER :: nat where
  "DEVICE_OS_MIN_VERSION_TO_FORMAT_128K_USER = 3103"

text \<open>
  The step object of a module, with the mode and the address that its branch assigns, and
  the synthetic step \<^verbatim>\<open>formerUserPartflashStep\<close>.
\<close>

definition flashStep :: "collaborators \<Rightarrow> parsed_module \<Rightarrow> flash_mode \<Rightarrow> js_number option \<Rightarrow> flash_step" where
  "flashStep C module mode addr =
    \<lparr> name = basename C (filename module),
      moduleInfo = Some \<lparr> crc = crc module, prefixInfo = prefixInfo module,
                          suffixInfo = suffixInfo module \<rparr>,
      data = (if moduleFlags (prefixInfo module) = DROP_MODULE_INFO C
              then drop (prefixSize (prefixInfo module)) (fileBuffer module)
              else fileBuffer module),
      flashMode = mode,
      address = addr \<rparr>"

definition formerUserPartflashStep :: "segment \<Rightarrow> flash_step" where
  "formerUserPartflashStep former =
    \<lparr> name = ''invalidate-128k-user-part'',
      moduleInfo = None,
      data = replicate (seg_size former) 0xFF,
      flashMode = dfu,
      address = Some (parseInt16 (replaceFirst ''0x'' [] (seg_address former))) \<rparr>"

text \<open>
  The body of \<^verbatim>\<open>sortedModules.forEach\<close>, on the three arrays \<^verbatim>\<open>assetModules\<close>,
  \<^verbatim>\<open>normalModules\<close> and \<^verbatim>\<open>dfuModules\<close>. It calls \<^verbatim>\<open>moduleTypeToString\<close>,
  which may throw, and then reads \<^verbatim>\<open>platform.firmwareModules.find\<close>, which raises a
  TypeError when the platform or its \<^verbatim>\<open>firmwareModules\<close> is \<^verbatim>\<open>undefined\<close>.
  Reading \<^verbatim>\<open>storage.storage\<close> raises a TypeError when the platform has no slot of
  the module's type; it is read only for a module that is neither an asset nor a boot
  loader.
\<close>

type_synonym buckets = "flash_step list \<times> flash_step list \<times> flash_step list"

definition planModule ::
  "collaborators \<Rightarrow> platform option \<Rightarrow> buckets \<Rightarrow> parsed_module \<Rightarrow> error + buckets" where
  "planModule C platform acc module =
    (case acc of (assetModules, normalModules, dfuModules) \<Rightarrow>
     case moduleTypeToString C (moduleFunction (prefixInfo module)) of
       Inl e \<Rightarrow> Inl e
     | Inr moduleType \<Rightarrow>
     (case platform of
       None \<Rightarrow> Inl TypeError
     | Some p \<Rightarrow>
      (case firmwareModules p of
        None \<Rightarrow> Inl TypeError
      | Some slots \<Rightarrow>
        (let storage = find (\<lambda>firmwareModule. fm_type firmwareModule = moduleType) slots
         in if moduleType = ''assets''
            then Inr (assetModules @ [flashStep C module normal None], normalModules, dfuModules)
            else if moduleType = ''bootloader''
            then Inr (assetModules, normalModules @ [flashStep C module normal None], dfuModules)
            else (case storage of
                    None \<Rightarrow> Inl TypeError
                  | Some st \<Rightarrow>
                     if fm_storage st = ''externalMcu''
                     then Inr (assetModules, normalModules @ [flashStep C module normal None], dfuModules)
                     else
                      (let dfuModules1 =
                         (if moduleType = ''userPart''
                          then (case formerUserPart p of
                                  None \<Rightarrow> dfuModules
                                | Some former \<Rightarrow>
                                   if depModuleVersion (prefixInfo module)
                                        \<ge> DEVICE_OS_MIN_VERSION_TO_FORMAT_128K_USER
                                   then dfuModules @ [formerUserPartflashStep former]
                                   else dfuModules)
                          else dfuModules)
                       in Inr (assetModules, normalModules,
                               dfuModules1 @ [flashStep C module dfu
                                 (Some (parseInt16 (moduleStartAddy (prefixInfo module))))])))))))"

fun forEachModule ::
  "collaborators \<Rightarrow> platform option \<Rightarrow> buckets \<Rightarrow> parsed_module list \<Rightarrow> error + buckets" where
  "forEachModule C platform acc [] = Inr acc"
| "forEachModule C platform acc (module # rest) =
    (case planModule C platform acc module of
       Inl e \<Rightarrow> Inl e
     | Inr acc1 \<Rightarrow> forEachModule C platform acc1 rest)"

text \<open>
  \<^verbatim>\<open>createFlashSteps\<close>. The dependency sorter is taken to return a list; a sorter
  that rejects is outside this model.
\<close>

definition createFlashSteps ::
  "collaborators \<Rightarrow> parsed_module list \<Rightarrow> bool \<Rightarrow> nat \<Rightarrow> error + flash_step list" where
  "createFlashSteps C modules isInDfuMode platformId =
    (let platform = find (\<lambda>p. platform_id p = platformId) (PLATFORMS C);
         sortedModules = sortBinariesByDependency C modules
     in case forEachModule C platform ([], [], []) sortedModules of
          Inl e \<Rightarrow> Inl e
        | Inr (assetModules, normalModules, dfuModules) \<Rightarrow>
            Inr (if isInDfuMode then dfuModules @ normalModules @ assetModules
                 else normalModules @ dfuModules @ assetModules))"

subsection \<open>The planner in the words of the spec\<close>

text \<open>
  The type of a module, the storage class of that type on the platform, the three buckets
  of the partition, the legacy region, and the steps each bucket holds. The bulk bucket
  holds, for each of its modules, the legacy-invalidation step if the module needs one and
  then the module's own step.
\<close>

definition spec_moduleType :: "collaborators \<Rightarrow> parsed_module \<Rightarrow> error + string" where
  "spec_moduleType C m = moduleTypeToString C (moduleFunction (prefixInfo m))"

definition spec_storageClass :: "collaborators \<Rightarrow> platform option \<Rightarrow> parsed_module \<Rightarrow> string option" where
  "spec_storageClass C platform m =
    (case platform of
       None \<Rightarrow> None
     | Some p \<Rightarrow>
        (case firmwareModules p of
           None \<Rightarrow> None
         | Some slots \<Rightarrow>
            (case spec_moduleType C m of
               Inl e \<Rightarrow> None
             | Inr moduleType \<Rightarrow>
                 map_option fm_storage (find (\<lambda>s. fm_type s = moduleType) slots))))"

definition spec_isAsset :: "collaborators \<Rightarrow> parsed_module \<Rightarrow> bool" where
  "spec_isAsset C m = (spec_moduleType C m = Inr ''assets'')"

definition spec_isNormal :: "collaborators \<Rightarrow> platform option \<Rightarrow> parsed_module \<Rightarrow> bool" where
  "spec_isNormal C platform m =
    (\<not> spec_isAsset C m \<and>
     (spec_moduleType C m = Inr ''bootloader''
      \<or> spec_storageClass C platform m = Some ''externalMcu''))"

definition spec_isBulk :: "collaborators \<Rightarrow> platform option \<Rightarrow> parsed_module \<Rightarrow> bool" where
  "spec_isBulk C platform m = (\<not> spec_isAsset C m \<and> \<not> spec_isNormal C platform m)"

definition spec_legacyRegion :: "platform option \<Rightarrow> segment option" where
  "spec_legacyRegion platform = (case platform of None \<Rightarrow> None | Some p \<Rightarrow> formerUserPart p)"

definition spec_needsInvalidation :: "collaborators \<Rightarrow> parsed_module \<Rightarrow> bool" where
  "spec_needsInvalidation C m =
    (spec_moduleType C m = Inr ''userPart'' \<and> depModuleVersion (prefixInfo m) \<ge> 3103)"

definition spec_legacySteps :: "collaborators \<Rightarrow> platform option \<Rightarrow> parsed_module \<Rightarrow> flash_step list" where
  "spec_legacySteps C platform m =
    (case spec_legacyRegion platform of
       None \<Rightarrow> []
     | Some former \<Rightarrow> if spec_needsInvalidation C m then [formerUserPartflashStep former] else [])"

definition spec_normalStep :: "collaborators \<Rightarrow> parsed_module \<Rightarrow> flash_step" where
  "spec_normalStep C m = flashStep C m normal None"

definition spec_bulkStep :: "collaborators \<Rightarrow> parsed_module \<Rightarrow> flash_step" where
  "spec_bulkStep C m = flashStep C m dfu (Some (parseInt16 (moduleStartAddy (prefixInfo m))))"

definition spec_assetModules :: "collaborators \<Rightarrow> parsed_module list \<Rightarrow> flash_step list" where
  "spec_assetModules C sortedModules = map (spec_normalStep C) (filter (spec_isAsset C) sortedModules)"

definition spec_normalModules :: "collaborators \<Rightarrow> platform option \<Rightarrow> parsed_module list \<Rightarrow> flash_step list" where
  "spec_normalModules C platform sortedModules =
    map (spec_normalStep C) (filter (spec_isNormal C platform) sortedModules)"

definition spec_bulkModules :: "collaborators \<Rightarrow> platform option \<Rightarrow> parsed_module list \<Rightarrow> flash_step list" where
  "spec_bulkModules C platform sortedModules =
    concat (map (\<lambda>m. spec_legacySteps C platform m @ [spec_bulkStep C m])
                (filter (spec_isBulk C platform) sortedModules))"

text \<open>
  A step comes from an asset module when it carries the \<^verbatim>\<open>moduleInfo\<close> of a module
  of type \<^verbatim>\<open>assets\<close>.
\<close>

definition fromAssetModule :: "collaborators \<Rightarrow> flash_step \<Rightarrow> bool" where
  "fromAssetModule C s =
    (case moduleInfo s of
       None \<Rightarrow> False
     | Some mi \<Rightarrow> moduleTypeToString C (moduleFunction (prefixInfo mi)) = Inr ''assets'')"

text \<open>
  The planner can place a module when its type has a name, the platform is in the table
  and has slots, and, unless the module is an asset or a boot loader, one of the slots is
  of its type.
\<close>

definition spec_plannable :: "collaborators \<Rightarrow> platform option \<Rightarrow> parsed_module \<Rightarrow> bool" where
  "spec_plannable C platform m =
    (case platform of
       None \<Rightarrow> False
     | Some p \<Rightarrow>
        (case firmwareModules p of
           None \<Rightarrow> False
         | Some slots \<Rightarrow>
            (case spec_moduleType C m of
               Inl e \<Rightarrow> False
             | Inr moduleType \<Rightarrow>
                 moduleType = ''assets'' \<or> moduleType = ''bootloader''
                 \<or> find (\<lambda>s. fm_type s = moduleType) slots \<noteq> None)))"

text \<open>The \<^verbatim>\<open>moduleInfo\<close> object that the step of a module carries.\<close>

definition spec_moduleInfo :: "parsed_module \<Rightarrow> module_info" where
  "spec_moduleInfo m = \<lparr> crc = crc m, prefixInfo = prefixInfo m, suffixInfo = suffixInfo m \<rparr>"

text \<open>
  The order the dependency sorter promises, for a dependency relation \<open>dep\<close>
  (\<open>dep a b\<close>: \<open>a\<close> depends on \<open>b\<close>): whatever an element of the list depends on stands
  earlier in the list. On steps, the relation is that of the modules they come from; a
  synthetic step has no dependencies and nothing depends on it.
\<close>

definition dependenciesFirst :: "('a \<Rightarrow> 'a \<Rightarrow> bool) \<Rightarrow> 'a list \<Rightarrow> bool" where
  "dependenciesFirst dep xs =
    (\<forall>i<length xs. \<forall>j<length xs. dep (xs ! i) (xs ! j) \<longrightarrow> j < i)"

definition stepDependsOn :: "(module_info \<Rightarrow> module_info \<Rightarrow> bool) \<Rightarrow> flash_step \<Rightarrow> flash_step \<Rightarrow> bool" where
  "stepDependsOn dep s t =
    (case moduleInfo s of
       None \<Rightarrow> False
     | Some a \<Rightarrow> (case moduleInfo t of None \<Rightarrow> False | Some b \<Rightarrow> dep a b))"

text \<open>A list property used for the legacy-invalidation step: every element that is
  \<open>syn\<close> has a successor, and \<open>Q\<close> relates the two.\<close>

fun eachGuarded :: "('a \<Rightarrow> bool) \<Rightarrow> ('a \<Rightarrow> 'a \<Rightarrow> bool) \<Rightarrow> 'a list \<Rightarrow> bool" where
  "eachGuarded syn Q [] = True"
| "eachGuarded syn Q [s] = (\<not> syn s)"
| "eachGuarded syn Q (s # t # rest) = ((syn s \<longrightarrow> Q s t) \<and> eachGuarded syn Q (t # rest))"

text \<open>The relation between an invalidation step and the step behind it.\<close>

definition guards ::
  "collaborators \<Rightarrow> platform option \<Rightarrow> parsed_module list \<Rightarrow> flash_step \<Rightarrow> flash_step \<Rightarrow> bool" where
  "guards C pl ms s t =
    (case spec_legacyRegion pl of
       None \<Rightarrow> False
     | Some former \<Rightarrow>
         s = formerUserPartflashStep former
         \<and> list_ex (\<lambda>m. t = spec_bulkStep C m \<and> spec_isBulk C pl m \<and> spec_needsInvalidation C m) ms)"

section \<open>Base-firmware resolution\<close>

text \<open>
  The collaborators of \<^verbatim>\<open>_getDeviceOsBinaries\<close>: the cloud lookup
  \<^verbatim>\<open>api.getDeviceOsVersions(platformId, internalVersion)\<close>, of whose answer only the
  property \<^verbatim>\<open>version\<close> is read (it may be absent) and which may reject;
  \<^verbatim>\<open>deviceOsUtils.downloadDeviceOsVersionBinaries\<close> with its arguments
  \<^verbatim>\<open>platformId\<close>, \<^verbatim>\<open>version\<close> and \<^verbatim>\<open>omitUserPart\<close>; and
  \<^verbatim>\<open>semver.lt\<close>, which compares two version strings and throws when one of them is
  not a version.
\<close>

record cloud =
  getDeviceOsVersions :: "nat \<Rightarrow> nat \<Rightarrow> error + string option"
  downloadDeviceOsVersionBinaries :: "nat \<Rightarrow> string \<Rightarrow> bool \<Rightarrow> error + string list"
  semver_lt :: "string \<Rightarrow> string \<Rightarrow> error + bool"

text \<open>\<^verbatim>\<open>_pickApplicationBinary\<close>: the first module of function \<open>USER_PART\<close>, with the
  version the cloud names for its dependency; a failed lookup is caught and leaves
  \<^verbatim>\<open>{ version: null }\<close>.\<close>

fun pickApplicationBinary :: "cloud \<Rightarrow> parsed_module list \<Rightarrow> parsed_module option \<times> string option" where
  "pickApplicationBinary K [] = (None, None)"
| "pickApplicationBinary K (module # rest) =
    (if moduleFunction (prefixInfo module) = USER_PART
     then (let internalVersion = depModuleVersion (prefixInfo module);
               applicationDeviceOsVersionData =
                 (case getDeviceOsVersions K (platformID (prefixInfo module)) internalVersion of
                    Inl e \<Rightarrow> None
                  | Inr version \<Rightarrow> version)
           in (Some module, applicationDeviceOsVersionData))
     else pickApplicationBinary K rest)"

text \<open>A string that may be \<^verbatim>\<open>null\<close> or \<^verbatim>\<open>undefined\<close> is truthy when it is
  present and not empty.\<close>

definition truthy :: "string option \<Rightarrow> bool" where
  "truthy v = (case v of None \<Rightarrow> False | Some s \<Rightarrow> s \<noteq> [])"

text \<open>
  \<^verbatim>\<open>_getDeviceOsBinaries\<close>. An \<^verbatim>\<open>if\<close> that returns is a branch; the two last
  decisions are named \<open>upgrade\<close> and \<open>unlessSkipped\<close>. \<^verbatim>\<open>semver.lt\<close> is called
  when both versions are truthy, and what it throws leaves the function.
\<close>

definition getDeviceOsBinaries ::
  "cloud \<Rightarrow> bool \<Rightarrow> string option \<Rightarrow> parsed_module list \<Rightarrow> string option \<Rightarrow> nat \<Rightarrow> bool
    \<Rightarrow> error + string list" where
  "getDeviceOsBinaries K skipDeviceOSFlash target modules currentDeviceOsVersion platformId
      applicationOnly =
    (case pickApplicationBinary K modules of (application, applicationDeviceOsVersion) \<Rightarrow>
     let includedDeviceOsModuleFunctions = [SYSTEM_PART, BOOTLOADER];
         systemPartBinaries =
           filter (\<lambda>m. moduleFunction (prefixInfo m) \<in> set includedDeviceOsModuleFunctions) modules;
         upgrade =
           (case applicationDeviceOsVersion of
              None \<Rightarrow> Inr []
            | Some app \<Rightarrow>
               (case currentDeviceOsVersion of
                  None \<Rightarrow> Inr []
                | Some cur \<Rightarrow>
                    if app \<noteq> [] \<and> cur \<noteq> []
                    then (case semver_lt K cur app of
                            Inl e \<Rightarrow> Inl e
                          | Inr older \<Rightarrow>
                              if older then downloadDeviceOsVersionBinaries K platformId app False
                              else Inr [])
                    else Inr []));
         unlessSkipped = (if skipDeviceOSFlash then Inr [] else upgrade)
     in if length systemPartBinaries \<noteq> 0 then Inr []
        else if application = None then Inr []
        else if applicationOnly then Inr []
        else (case target of
                None \<Rightarrow> unlessSkipped
              | Some t \<Rightarrow> if t \<noteq> [] then downloadDeviceOsVersionBinaries K platformId t True
                          else unlessSkipped))"

text \<open>
  The decision order in the words of the spec: a list of rules, of which the first whose
  condition holds decides. \<open>spec_comparison\<close> is the comparison that rule 6 makes, if it
  makes one; the installed version is strictly older when that comparison says so, and
  \<open>spec_comparable\<close> when the comparison is not made or returns.
\<close>

datatype fetch = FetchNothing | FetchVersion string bool

fun first_match :: "(bool \<times> 'a) list \<Rightarrow> 'a \<Rightarrow> 'a" where
  "first_match [] otherwise = otherwise"
| "first_match ((condition, outcome) # rules) otherwise =
    (if condition then outcome else first_match rules otherwise)"

definition spec_hasSystemOrBootloader :: "parsed_module list \<Rightarrow> bool" where
  "spec_hasSystemOrBootloader modules =
    list_ex (\<lambda>m. moduleFunction (prefixInfo m) = SYSTEM_PART
                \<or> moduleFunction (prefixInfo m) = BOOTLOADER) modules"

definition spec_application :: "parsed_module list \<Rightarrow> parsed_module option" where
  "spec_application modules = find (\<lambda>m. moduleFunction (prefixInfo m) = USER_PART) modules"

definition spec_lookup :: "cloud \<Rightarrow> parsed_module \<Rightarrow> error + string option" where
  "spec_lookup K app = getDeviceOsVersions K (platformID (prefixInfo app)) (depModuleVersion (prefixInfo app))"

definition spec_requiredVersion :: "cloud \<Rightarrow> parsed_module list \<Rightarrow> string option" where
  "spec_requiredVersion K modules =
    (case spec_application modules of
       None \<Rightarrow> None
     | Some app \<Rightarrow> (case spec_lookup K app of Inl e \<Rightarrow> None | Inr version \<Rightarrow> version))"

definition spec_comparison :: "cloud \<Rightarrow> string option \<Rightarrow> string option \<Rightarrow> (error + bool) option" where
  "spec_comparison K installed required =
    (case required of
       None \<Rightarrow> None
     | Some app \<Rightarrow> (case installed of
                     None \<Rightarrow> None
                   | Some cur \<Rightarrow> if app \<noteq> [] \<and> cur \<noteq> [] then Some (semver_lt K cur app)
                               else None))"

definition spec_strictlyOlder :: "cloud \<Rightarrow> string option \<Rightarrow> string option \<Rightarrow> bool" where
  "spec_strictlyOlder K installed required = (spec_comparison K installed required = Some (Inr True))"

definition spec_comparable :: "cloud \<Rightarrow> string option \<Rightarrow> string option \<Rightarrow> bool" where
  "spec_comparable K installed required =
    (case spec_comparison K installed required of
       None \<Rightarrow> True
     | Some (Inl e) \<Rightarrow> False
     | Some (Inr older) \<Rightarrow> True)"

definition spec_fetchVersion :: "string option \<Rightarrow> bool \<Rightarrow> fetch" where
  "spec_fetchVersion version omitUserPart =
    (case version of None \<Rightarrow> FetchNothing | Some v \<Rightarrow> FetchVersion v omitUserPart)"

definition spec_resolution ::
  "cloud \<Rightarrow> bool \<Rightarrow> string option \<Rightarrow> parsed_module list \<Rightarrow> string option \<Rightarrow> bool \<Rightarrow> fetch" where
  "spec_resolution K skipFlag target modules installed applicationOnly =
    first_match
      [(spec_hasSystemOrBootloader modules, FetchNothing),
       (spec_application modules = None, FetchNothing),
       (applicationOnly, FetchNothing),
       (truthy target, spec_fetchVersion target True),
       (skipFlag, FetchNothing),
       (spec_strictlyOlder K installed (spec_requiredVersion K modules),
          spec_fetchVersion (spec_requiredVersion K modules) False)]
      FetchNothing"

text \<open>Rules 1 to 5 decide without a look at the versions.\<close>

definition spec_decidedEarly :: "bool \<Rightarrow> string option \<Rightarrow> parsed_module list \<Rightarrow> bool \<Rightarrow> bool" where
  "spec_decidedEarly skipFlag target modules applicationOnly =
    (spec_hasSystemOrBootloader modules \<or> spec_application modules = None \<or> applicationOnly
     \<or> truthy target \<or> skipFlag)"

definition spec_fetch :: "cloud \<Rightarrow> nat \<Rightarrow> fetch \<Rightarrow> error + string list" where
  "spec_fetch K platformId f =
    (case f of
       FetchNothing \<Rightarrow> Inr []
     | FetchVersion version omitUserPart \<Rightarrow>
         downloadDeviceOsVersionBinaries K platformId version omitUserPart)"

section \<open>Device operations\<close>

text \<open>
  A device handle: the properties that are fixed when the handle is opened. Whether it is
  open is part of the state of the world.
\<close>

record device =
  dev_id :: string
  dev_platformId :: nat
  dev_isInDfuMode :: bool
  dev_firmwareVersion :: "string option"

text \<open>The calls that the flashing code makes on the device and the USB layer, in the
  order in which it makes them.\<close>

datatype call =
  GetOneUsbDevice "string option"
  | ReopenInNormalMode device bool
  | ReopenInDfuMode device
  | EnterListeningMode device
  | UpdateFirmware device buffer
  | WriteOverDfu device buffer nat "js_number option"
  | Reset device
  | Close device

text \<open>The calls of \<^verbatim>\<open>device.close()\<close>.\<close>

fun isClose :: "call \<Rightarrow> bool" where
  "isClose (Close device) = True"
| "isClose other = False"

text \<open>
  The USB layer (\<^verbatim>\<open>usb-util\<close> and the handle's methods) over a world \<open>'w\<close> that only
  it can change. Every operation may fail.
\<close>

record 'w usb =
  dev_isOpen :: "'w \<Rightarrow> device \<Rightarrow> bool"
  getOneUsbDevice :: "string option \<Rightarrow> 'w \<Rightarrow> (error + device) \<times> 'w"
  reopenInNormalMode :: "device \<Rightarrow> bool \<Rightarrow> 'w \<Rightarrow> (error + device) \<times> 'w"
  reopenInDfuMode :: "device \<Rightarrow> 'w \<Rightarrow> (error + device) \<times> 'w"
  enterListeningMode :: "device \<Rightarrow> 'w \<Rightarrow> (error + unit) \<times> 'w"
  updateFirmware :: "device \<Rightarrow> buffer \<Rightarrow> 'w \<Rightarrow> (error + unit) \<times> 'w"
  writeOverDfu :: "device \<Rightarrow> buffer \<Rightarrow> nat \<Rightarrow> js_number option \<Rightarrow> 'w \<Rightarrow> (error + unit) \<times> 'w"
  reset :: "device \<Rightarrow> 'w \<Rightarrow> (error + unit) \<times> 'w"
  close :: "device \<Rightarrow> 'w \<Rightarrow> (error + unit) \<times> 'w"

text \<open>
  An \<^verbatim>\<open>async\<close> function is a function of the state, which is the world and the calls
  made so far, to a result and a new state. \<open>perform\<close> makes a call, \<open>tryCatch\<close> is
  \<^verbatim>\<open>try { } catch (error) { }\<close>.
\<close>

type_synonym 'w state = "'w \<times> call list"

type_synonym ('w, 'a) async = "'w state \<Rightarrow> (error + 'a) \<times> 'w state"

definition ret :: "'a \<Rightarrow> ('w, 'a) async" where
  "ret a s = (Inr a, s)"

definition throw :: "error \<Rightarrow> ('w, 'a) async" where
  "throw e s = (Inl e, s)"

definition lift :: "error + 'a \<Rightarrow> ('w, 'a) async" where
  "lift r s = (r, s)"

definition bind :: "('w, 'a) async \<Rightarrow> ('a \<Rightarrow> ('w, 'b) async) \<Rightarrow> ('w, 'b) async" where
  "bind m f s = (case m s of (Inl e, s1) \<Rightarrow> (Inl e, s1) | (Inr a, s1) \<Rightarrow> f a s1)"

definition tryCatch :: "('w, 'a) async \<Rightarrow> (error \<Rightarrow> ('w, 'a) async) \<Rightarrow> ('w, 'a) async" where
  "tryCatch m handler s = (case m s of (Inl e, s1) \<Rightarrow> handler e s1 | (Inr a, s1) \<Rightarrow> (Inr a, s1))"

definition perform :: "call \<Rightarrow> ('w \<Rightarrow> (error + 'a) \<times> 'w) \<Rightarrow> ('w, 'a) async" where
  "perform c operation s = (case operation (fst s) of (r, w) \<Rightarrow> (r, (w, snd s @ [c])))"

section \<open>Mode-switch executor\<close>

text \<open>
  \<^verbatim>\<open>flashDeviceInNormalMode\<close> and \<^verbatim>\<open>flashDeviceInDfuMode\<close>. The progress
  callback only drives the presentation and is modelled on its own below; the settle delay
  takes time and changes nothing.
\<close>

definition flashDeviceInNormalMode :: "'w usb \<Rightarrow> device \<Rightarrow> buffer \<Rightarrow> ('w, device) async" where
  "flashDeviceInNormalMode U device bytes =
    bind (if dev_isInDfuMode device
          then perform (ReopenInNormalMode device True) (reopenInNormalMode U device True)
          else ret device) (\<lambda>device.
    bind (tryCatch (perform (EnterListeningMode device) (enterListeningMode U device))
            (\<lambda>error. ret ())) (\<lambda>_.
    bind (perform (UpdateFirmware device bytes) (updateFirmware U device bytes)) (\<lambda>_.
    perform (ReopenInNormalMode device False) (reopenInNormalMode U device False))))"

definition flashDeviceInDfuMode ::
  "'w usb \<Rightarrow> device \<Rightarrow> buffer \<Rightarrow> nat \<Rightarrow> js_number option \<Rightarrow> ('w, device) async" where
  "flashDeviceInDfuMode U device bytes altSetting startAddr =
    bind (if \<not> dev_isInDfuMode device
          then perform (ReopenInDfuMode device) (reopenInDfuMode U device)
          else ret device) (\<lambda>device.
    bind (perform (WriteOverDfu device bytes altSetting startAddr)
            (writeOverDfu U device bytes altSetting startAddr)) (\<lambda>_.
    ret device))"

text \<open>
  The \<^verbatim>\<open>for\<close> loop of \<^verbatim>\<open>flashFiles\<close>. It assigns \<^verbatim>\<open>device\<close> after every
  step, and the \<^verbatim>\<open>finally\<close> block reads that variable; so the loop returns the handle
  it holds at its end together with the error that ended it, if one did.
\<close>

fun flashLoop ::
  "'w usb \<Rightarrow> device \<Rightarrow> flash_step list \<Rightarrow> 'w state \<Rightarrow> (error option \<times> device) \<times> 'w state" where
  "flashLoop U device [] s = ((None, device), s)"
| "flashLoop U device (step # rest) s =
    (case (if flashMode step = normal
           then flashDeviceInNormalMode U device (data step)
           else flashDeviceInDfuMode U device (data step) 0 (address step)) s of
       (Inl error, s1) \<Rightarrow> ((Some error, device), s1)
     | (Inr device1, s1) \<Rightarrow> flashLoop U device1 rest s1)"

text \<open>\<^verbatim>\<open>flashFiles\<close>: the loop, then the \<^verbatim>\<open>finally\<close> block. An error of the
  \<^verbatim>\<open>finally\<close> block replaces the outcome of the loop.\<close>

definition flashFiles :: "'w usb \<Rightarrow> device \<Rightarrow> flash_step list \<Rightarrow> bool \<Rightarrow> ('w, unit) async" where
  "flashFiles U device flashSteps resetAfterFlash s =
    (case flashLoop U device flashSteps s of
       ((outcome, device1), s1) \<Rightarrow>
         (case (if dev_isOpen U (fst s1) device1
                then bind (if resetAfterFlash
                           then tryCatch (perform (Reset device1) (reset U device1))
                                  (\<lambda>error. ret ())
                           else ret ()) (\<lambda>_.
                     perform (Close device1) (close U device1))
                else ret ()) s1 of
            (Inl error, s2) \<Rightarrow> (Inl error, s2)
          | (Inr _, s2) \<Rightarrow>
              (case outcome of None \<Rightarrow> (Inr (), s2) | Some error \<Rightarrow> (Inl error, s2))))"

section \<open>Flash commands\<close>

text \<open>
  What \<^verbatim>\<open>flash.js\<close> uses of the host: \<^verbatim>\<open>utilities.getFilenameExt\<close>, the name of
  \<^verbatim>\<open>platformForId\<close>, \<^verbatim>\<open>knownAppsForPlatform\<close> and \<^verbatim>\<open>knownAppNames\<close>, whether
  \<^verbatim>\<open>fs.stat\<close> finds a path, and the module parser. \<^verbatim>\<open>_prepareFilesToFlash\<close> and
  \<^verbatim>\<open>_processBundle\<close> search the file system, call the cloud compiler and unpack
  bundles; they make no call on the device and stand here as operations that fail or
  return the files to flash.
\<close>

record host =
  getFilenameExt :: "string \<Rightarrow> string"
  platformForId :: "nat \<Rightarrow> error + string"
  knownAppsForPlatform :: "string \<Rightarrow> string \<Rightarrow> string option"
  knownAppNames :: "string list"
  fileExists :: "string \<Rightarrow> bool"
  parseFile :: "string \<Rightarrow> error + parsed_module"
  prepareFilesToFlash ::
    "string option \<Rightarrow> string list \<Rightarrow> nat \<Rightarrow> string \<Rightarrow> string option \<Rightarrow> error + (bool \<times> string list)"
  processBundle :: "string list \<Rightarrow> error + string list"

record 'w environment =
  env_collaborators :: collaborators
  env_cloud :: cloud
  env_host :: host
  env_usb :: "'w usb"

text \<open>\<^verbatim>\<open>parseModulesToFlash\<close>: the parser's result already names its file, so the
  spread \<^verbatim>\<open>{ filename: file, ...binary }\<close> is the result itself.\<close>

fun parseModulesToFlash :: "host \<Rightarrow> string list \<Rightarrow> error + parsed_module list" where
  "parseModulesToFlash H [] = Inr []"
| "parseModulesToFlash H (file # files) =
    (case parseFile H file of
       Inl e \<Rightarrow> Inl e
     | Inr binary \<Rightarrow>
        (case parseModulesToFlash H files of
           Inl e \<Rightarrow> Inl e
         | Inr rest \<Rightarrow> Inr (binary # rest)))"

text \<open>\<^verbatim>\<open>_analyzeFiles\<close> returns \<^verbatim>\<open>{ files, deviceIdOrName, knownApp }\<close>.\<close>

definition analyzeFiles :: "host \<Rightarrow> string list \<Rightarrow> string list \<times> string option \<times> string option" where
  "analyzeFiles H files =
    (case files of
       [] \<Rightarrow> ([''.''], None, None)
     | knownApp # remainingFiles \<Rightarrow>
         if knownApp \<in> set (knownAppNames H) then ([], None, Some knownApp)
         else (case remainingFiles of
                 second # _ \<Rightarrow>
                   if second \<in> set (knownAppNames H) then ([], Some knownApp, Some second)
                   else if fileExists H knownApp then (files, None, None)
                   else (remainingFiles, Some knownApp, None)
               | [] \<Rightarrow>
                   if fileExists H knownApp then (files, None, None)
                   else (remainingFiles, Some knownApp, None)))"

text \<open>
  \<^verbatim>\<open>flash.js\<close> imports \<^verbatim>\<open>validateDFUSupport\<close> from \<^verbatim>\<open>flash-helper.js\<close>, which
  neither defines nor exports a function of that name: the imported binding is
  \<^verbatim>\<open>undefined\<close>, and calling it raises a TypeError.
\<close>

definition validateDFUSupport :: "device \<Rightarrow> ('w, unit) async" where
  "validateDFUSupport device = throw TypeError"

text \<open>
  \<^verbatim>\<open>flashOverUsb\<close>. The \<^verbatim>\<open>catch\<close> block closes the device when the variable
  \<^verbatim>\<open>device\<close> is set, which it is once \<^verbatim>\<open>getOneUsbDevice\<close> has returned; it does
  not rethrow. The statements behind the call of \<^verbatim>\<open>validateDFUSupport\<close> are written
  down as the source has them.
\<close>

definition flashOverUsb :: "'w environment \<Rightarrow> string \<Rightarrow> bool \<Rightarrow> ('w, unit) async" where
  "flashOverUsb X binary factory =
    (let C = env_collaborators X; H = env_host X; U = env_usb X in
     if getFilenameExt H binary = ''.zip''
     then tryCatch (throw UseLocalForZip) (\<lambda>error. ret ())
     else (\<lambda>s.
       case perform (GetOneUsbDevice None) (getOneUsbDevice U None) s of
         (Inl error, s1) \<Rightarrow> (Inr (), s1)
       | (Inr device, s1) \<Rightarrow>
           tryCatch
             (bind (lift (platformForId H (dev_platformId device))) (\<lambda>platformName.
              bind (validateDFUSupport device) (\<lambda>_.
              let files = (case knownAppsForPlatform H platformName binary of
                             None \<Rightarrow> [binary]
                           | Some knownAppPath \<Rightarrow>
                               if knownAppPath \<noteq> [] then [knownAppPath] else [binary]) in
              bind (lift (parseModulesToFlash H files)) (\<lambda>modulesToFlash.
              bind (lift (validateModulesForPlatform modulesToFlash (dev_platformId device)
                            platformName)) (\<lambda>_.
              bind (lift (createFlashSteps C modulesToFlash (dev_isInDfuMode device)
                            (dev_platformId device))) (\<lambda>flashSteps.
              bind (lift (if factory then Inr False
                          else (case modulesToFlash of
                                  [] \<Rightarrow> Inl TypeError
                                | first # _ \<Rightarrow>
                                    Inr (moduleFunction (prefixInfo first) = USER_PART))))
                (\<lambda>resetAfterFlash.
              flashFiles U device flashSteps resetAfterFlash)))))))
             (\<lambda>error. perform (Close device) (close U device)) s1))"

text \<open>
  \<^verbatim>\<open>flashLocal\<close> has no \<^verbatim>\<open>try\<close>: every error leaves it at once, the TypeError
  of the call of \<^verbatim>\<open>validateDFUSupport\<close> included.
\<close>

definition flashLocal ::
  "'w environment \<Rightarrow> string list \<Rightarrow> bool \<Rightarrow> string option \<Rightarrow> ('w, unit) async" where
  "flashLocal X files applicationOnly target =
    (let C = env_collaborators X; K = env_cloud X; H = env_host X; U = env_usb X in
     case analyzeFiles H files of (parsedFiles, deviceIdOrName, knownApp) \<Rightarrow>
     bind (perform (GetOneUsbDevice deviceIdOrName) (getOneUsbDevice U deviceIdOrName)) (\<lambda>device.
     bind (lift (platformForId H (dev_platformId device))) (\<lambda>platformName.
     bind (validateDFUSupport device) (\<lambda>_.
     bind (lift (prepareFilesToFlash H knownApp parsedFiles (dev_platformId device) platformName
                   target)) (\<lambda>(skipDeviceOSFlash, filesToFlash).
     bind (lift (processBundle H filesToFlash)) (\<lambda>filesToFlash.
     bind (lift (parseModulesToFlash H filesToFlash)) (\<lambda>fileModules.
     bind (lift (validateModulesForPlatform fileModules (dev_platformId device) platformName)) (\<lambda>_.
     bind (lift (getDeviceOsBinaries K skipDeviceOSFlash target fileModules
                   (dev_firmwareVersion device) (dev_platformId device) applicationOnly))
       (\<lambda>deviceOsBinaries.
     bind (lift (parseModulesToFlash H deviceOsBinaries)) (\<lambda>deviceOsModules.
     bind (lift (filterModulesToFlash C (fileModules @ deviceOsModules) (dev_platformId device)
                   False)) (\<lambda>modulesToFlash.
     bind (lift (createFlashSteps C modulesToFlash (dev_isInDfuMode device)
                   (dev_platformId device))) (\<lambda>flashSteps.
     flashFiles U device flashSteps True))))))))))))"

section \<open>Flash progress\<close>

text \<open>
  \<^verbatim>\<open>_createFlashProgress\<close> returns a closure over \<^verbatim>\<open>flashMultiplier\<close>,
  \<^verbatim>\<open>eraseSize\<close>, \<^verbatim>\<open>step\<close> and \<^verbatim>\<open>description\<close>; the state below holds them,
  with the progress bar (present when the UI is interactive) and the lines written to
  \<^verbatim>\<open>ui.stdout\<close>. Byte counts are JavaScript numbers, here integers.
\<close>

record progress_bar =
  bar_total :: int
  bar_value :: int
  bar_description :: string
  bar_stopped :: bool

record progress_state =
  flashMultiplier :: int
  eraseSize :: int
  step :: "flash_step option"
  description :: "string option"
  progressBar :: "progress_bar option"
  stdout :: "string list"

datatype payload =
  FlashFile string
  | SwitchMode string
  | Erased int
  | Downloaded int
  | Finish

record ui =
  isInteractive :: bool
  EOL :: string

definition NORMAL_MULTIPLIER :: int where
  "NORMAL_MULTIPLIER = 10"

definition createFlashProgress :: "flash_step list \<Rightarrow> ui \<Rightarrow> progress_state" where
  "createFlashProgress flashSteps u =
    \<lparr> flashMultiplier = 1,
      eraseSize = 0,
      step = None,
      description = None,
      progressBar =
        (if isInteractive u
         then Some \<lparr> bar_total =
                        foldl (\<lambda>total step. total + int (length (data step)) * 2
                                  * (if flashMode step = normal then NORMAL_MULTIPLIER else 1))
                          0 flashSteps,
                      bar_value = 0,
                      bar_description = ''Preparing to flash'',
                      bar_stopped = False \<rparr>
         else None),
      stdout = [] \<rparr>"

definition bar_update :: "string \<Rightarrow> progress_state \<Rightarrow> progress_state" where
  "bar_update d st =
    st \<lparr> progressBar := map_option (\<lambda>b. b \<lparr> bar_description := d \<rparr>) (progressBar st) \<rparr>"

definition bar_increment :: "int \<Rightarrow> progress_state \<Rightarrow> progress_state" where
  "bar_increment n st =
    st \<lparr> progressBar := map_option (\<lambda>b. b \<lparr> bar_value := bar_value b + n \<rparr>) (progressBar st) \<rparr>"

definition bar_stop :: "progress_state \<Rightarrow> progress_state" where
  "bar_stop st =
    st \<lparr> progressBar := map_option (\<lambda>b. b \<lparr> bar_stopped := True \<rparr>) (progressBar st) \<rparr>"

definition announce :: "ui \<Rightarrow> string \<Rightarrow> progress_state \<Rightarrow> progress_state" where
  "announce u d st =
    (if isInteractive u then bar_update d (st \<lparr> description := Some d \<rparr>)
     else st \<lparr> description := Some d, stdout := stdout st @ [d @ EOL u] \<rparr>)"

text \<open>
  The closure. It returns the error it throws, if any, with the state it leaves:
  \<^verbatim>\<open>flash-file\<close> for a name that no step has assigns \<^verbatim>\<open>undefined\<close> to
  \<^verbatim>\<open>step\<close> and then fails on \<^verbatim>\<open>step.flashMode\<close>.
\<close>

definition progress ::
  "flash_step list \<Rightarrow> ui \<Rightarrow> payload \<Rightarrow> progress_state \<Rightarrow> error option \<times> progress_state" where
  "progress flashSteps u event st =
    (case event of
       FlashFile file \<Rightarrow>
         (let st1 = announce u (''Flashing '' @ file) st in
          case find (\<lambda>step. name step = file) flashSteps of
            None \<Rightarrow> (Some TypeError, st1 \<lparr> step := None \<rparr>)
          | Some found \<Rightarrow>
              (None, st1 \<lparr> step := Some found,
                            flashMultiplier :=
                              (if flashMode found = normal then NORMAL_MULTIPLIER else 1),
                            eraseSize := 0 \<rparr>))
     | SwitchMode mode \<Rightarrow>
         (None, announce u (''Switching device to '' @ mode @ '' mode'') st)
     | Erased bytes \<Rightarrow>
         (if isInteractive u
          then (case step st of
                  None \<Rightarrow>
                    (None, (bar_increment (bytes * flashMultiplier st) st)
                             \<lparr> eraseSize := eraseSize st + bytes \<rparr>)
                | Some current \<Rightarrow>
                    if eraseSize st + bytes > int (length (data current))
                    then (None, (bar_increment
                                   ((int (length (data current)) - eraseSize st) * flashMultiplier st) st)
                                  \<lparr> eraseSize := int (length (data current)) \<rparr>)
                    else (None, (bar_increment (bytes * flashMultiplier st) st)
                                  \<lparr> eraseSize := eraseSize st + bytes \<rparr>))
          else (None, st))
     | Downloaded bytes \<Rightarrow>
         (if isInteractive u then (None, bar_increment (bytes * flashMultiplier st) st)
          else (None, st))
     | Finish \<Rightarrow> (if isInteractive u then (None, bar_stop st) else (None, st)))"

text \<open>A sequence of events, up to the first error.\<close>

fun progressAll ::
  "flash_step list \<Rightarrow> ui \<Rightarrow> payload list \<Rightarrow> progress_state \<Rightarrow> error option \<times> progress_state" where
  "progressAll flashSteps u [] st = (None, st)"
| "progressAll flashSteps u (event # events) st =
    (case progress flashSteps u event st of
       (Some e, st1) \<Rightarrow> (Some e, st1)
     | (None, st1) \<Rightarrow> progressAll flashSteps u events st1)"

section \<open>Example inputs\<close>

text \<open>Concrete inputs, on which the theorems are run: a platform with a boot loader, a
  system part and a user part in internal flash, a coprocessor firmware on an external MCU
  in an encrypted slot, and a former user-part region of four bytes.\<close>

fun example_typeToString :: "function_type \<Rightarrow> error + string" where
  "example_typeToString BOOTLOADER = Inr ''bootloader''"
| "example_typeToString SYSTEM_PART = Inr ''systemPart''"
| "example_typeToString USER_PART = Inr ''userPart''"
| "example_typeToString NCP_FIRMWARE = Inr ''ncpFirmware''"
| "example_typeToString RADIO_STACK = Inr ''radioStack''"
| "example_typeToString ASSET = Inr ''assets''"
| "example_typeToString MONO_FIRMWARE = Inr ''monoFirmware''"
| "example_typeToString RESOURCE = Inr ''resource''"
| "example_typeToString SETTINGS = Inr ''settings''"
| "example_typeToString NONE = Inl (Rejected ''unknown module type'')"

definition example_slots :: "firmware_module list" where
  "example_slots =
    [\<lparr> fm_type = ''bootloader'', fm_index = 0, fm_storage = ''internalFlash'', fm_encrypted = False \<rparr>,
     \<lparr> fm_type = ''systemPart'', fm_index = 1, fm_storage = ''internalFlash'', fm_encrypted = False \<rparr>,
     \<lparr> fm_type = ''userPart'', fm_index = 1, fm_storage = ''internalFlash'', fm_encrypted = False \<rparr>,
     \<lparr> fm_type = ''ncpFirmware'', fm_index = 0, fm_storage = ''externalMcu'', fm_encrypted = True \<rparr>]"

definition example_platform :: platform where
  "example_platform =
    \<lparr> platform_id = 32,
      firmwareModules = Some example_slots,
      formerUserPart = Some \<lparr> seg_address = ''0x08000000'', seg_size = 4 \<rparr> \<rparr>"

definition example_collaborators :: collaborators where
  "example_collaborators =
    \<lparr> PLATFORMS = [example_platform],
      moduleTypeToString = example_typeToString,
      sortBinariesByDependency = (\<lambda>modules. modules),
      basename = (\<lambda>path. path),
      DROP_MODULE_INFO = 1 \<rparr>"

definition example_module :: "function_type \<Rightarrow> nat \<Rightarrow> nat \<Rightarrow> string \<Rightarrow> buffer \<Rightarrow> parsed_module" where
  "example_module f i dep file bytes =
    \<lparr> crc = \<lparr> ok = True \<rparr>,
      prefixInfo = \<lparr> moduleFunction = f, moduleIndex = i, moduleFlags = 0, prefixSize = 24,
                     platformID = 32, depModuleVersion = dep, moduleStartAddy = ''80a0000'' \<rparr>,
      suffixInfo = [],
      filename = file,
      fileBuffer = bytes \<rparr>"

definition example_bootloader :: parsed_module where
  "example_bootloader = example_module BOOTLOADER 0 0 ''bootloader.bin'' [1, 2]"

definition example_userPart :: parsed_module where
  "example_userPart = example_module USER_PART 1 3200 ''app.bin'' [3, 4, 5]"

definition example_asset :: parsed_module where
  "example_asset = example_module ASSET 0 0 ''logo.png'' [6]"

definition example_ncp :: parsed_module where
  "example_ncp = example_module NCP_FIRMWARE 0 0 ''ncp.bin'' [7]"

definition example_radio :: parsed_module where
  "example_radio = example_module RADIO_STACK 0 0 ''radio.bin'' [11]"

definition example_systemPart :: parsed_module where
  "example_systemPart = example_module SYSTEM_PART 1 0 ''system-part1.bin'' [8, 9]"

text \<open>A platform whose user part lives on the external MCU, with a former user-part
  region.\<close>

definition example_externalUserPlatform :: platform where
  "example_externalUserPlatform =
    \<lparr> platform_id = 77,
      firmwareModules =
        Some [\<lparr> fm_type = ''userPart'', fm_index = 1, fm_storage = ''externalMcu'', fm_encrypted = False \<rparr>],
      formerUserPart = Some \<lparr> seg_address = ''0x08000000'', seg_size = 4 \<rparr> \<rparr>"

text \<open>A dependency relation for the examples: user parts depend on system parts.\<close>

definition example_dependsOn :: "module_info \<Rightarrow> module_info \<Rightarrow> bool" where
  "example_dependsOn a b =
    (moduleFunction (prefixInfo a) = USER_PART \<and> moduleFunction (prefixInfo b) = SYSTEM_PART)"

text \<open>
  A cloud for the examples: it knows the version of dependency 3200 only and hands out one
  file per version. The comparison knows three versions and throws on every other string.
\<close>

definition example_versions :: "(string \<times> nat) list" where
  "example_versions = [(''4.0.0'', 400), (''5.0.0'', 500), (''5.3.0'', 530)]"

definition example_lt :: "string \<Rightarrow> string \<Rightarrow> error + bool" where
  "example_lt a b =
    (case map_of example_versions a of
       None \<Rightarrow> Inl TypeError
     | Some x \<Rightarrow> (case map_of example_versions b of
                   None \<Rightarrow> Inl TypeError
                 | Some y \<Rightarrow> Inr (x < y)))"

definition example_cloud :: cloud where
  "example_cloud =
    \<lparr> getDeviceOsVersions =
        (\<lambda>platformId internalVersion.
           if internalVersion = 3200 then Inr (Some ''5.3.0'') else Inl (Rejected ''404'')),
      downloadDeviceOsVersionBinaries =
        (\<lambda>platformId version omitUserPart. Inr [version @ ''/system-part1.bin'']),
      semver_lt = example_lt \<rparr>"

definition example_oldUserPart :: parsed_module where
  "example_oldUserPart = example_module USER_PART 1 1200 ''old-app.bin'' [3]"

text \<open>Two files of one name in two directories, of eight bytes and of two bytes, with
  \<^verbatim>\<open>path.basename\<close> as on POSIX for paths that do not end in a slash; and their steps.\<close>

definition example_basename :: "string \<Rightarrow> string" where
  "example_basename path = rev (takeWhile (\<lambda>c. c \<noteq> CHR ''/'') (rev path))"

definition example_dirs :: collaborators where
  "example_dirs = example_collaborators \<lparr> basename := example_basename \<rparr>"

definition example_partA :: parsed_module where
  "example_partA = example_module SYSTEM_PART 1 0 ''a/part.bin'' [1, 2, 3, 4, 5, 6, 7, 8]"

definition example_partB :: parsed_module where
  "example_partB = example_module USER_PART 1 1200 ''b/part.bin'' [9, 10]"

definition example_twins :: "flash_step list" where
  "example_twins = [spec_bulkStep example_dirs example_partA, spec_bulkStep example_dirs example_partB]"

definition example_ui :: ui where
  "example_ui = \<lparr> isInteractive = True, EOL = [CHR 0x0A] \<rparr>"

text \<open>
  A world for the examples: the list of the handles closed so far. The device is in DFU
  mode, every operation succeeds, and \<open>example_failingUsb\<close> differs in that the DFU write
  fails.
\<close>

definition example_device :: device where
  "example_device =
    \<lparr> dev_id = ''e00fce68'', dev_platformId = 32, dev_isInDfuMode = True,
      dev_firmwareVersion = Some ''5.3.0'' \<rparr>"

definition example_usb :: "device list usb" where
  "example_usb =
    \<lparr> dev_isOpen = (\<lambda>w d. d \<notin> set w),
      getOneUsbDevice = (\<lambda>idOrName w. (Inr example_device, w)),
      reopenInNormalMode = (\<lambda>d r w. (Inr (d \<lparr> dev_isInDfuMode := False \<rparr>), w)),
      reopenInDfuMode = (\<lambda>d w. (Inr (d \<lparr> dev_isInDfuMode := True \<rparr>), w)),
      enterListeningMode = (\<lambda>d w. (Inr (), w)),
      updateFirmware = (\<lambda>d bytes w. (Inr (), w)),
      writeOverDfu = (\<lambda>d bytes altSetting startAddr w. (Inr (), w)),
      reset = (\<lambda>d w. (Inr (), w)),
      close = (\<lambda>d w. (Inr (), d # w)) \<rparr>"

definition example_failingUsb :: "device list usb" where
  "example_failingUsb =
    example_usb \<lparr> writeOverDfu :=
      (\<lambda>d bytes altSetting startAddr w. (Inl (Rejected ''write failed''), w)) \<rparr>"

definition example_badCrc :: parsed_module where
  "example_badCrc = example_userPart \<lparr> crc := \<lparr> ok = False \<rparr>, filename := ''bad.bin'' \<rparr>"

definition example_otherPlatform :: parsed_module where
  "example_otherPlatform =
    example_userPart \<lparr> prefixInfo := (prefixInfo example_userPart) \<lparr> platformID := 6 \<rparr>,
                       filename := ''photon.bin'' \<rparr>"

definition example_host :: host where
  "example_host =
    \<lparr> getFilenameExt = (\<lambda>file. if file = ''bundle.zip'' then ''.zip'' else ''.bin''),
      platformForId = (\<lambda>i. if i = 32 then Inr ''p2'' else Inl (Rejected ''unknown platform'')),
      knownAppsForPlatform = (\<lambda>platformName app. None),
      knownAppNames = [''tinker''],
      fileExists = (\<lambda>path. True),
      parseFile =
        (\<lambda>file. if file = ''app.bin'' then Inr example_userPart
                 else if file = ''bad.bin'' then Inr example_badCrc
                 else if file = ''photon.bin'' then Inr example_otherPlatform
                 else Inl (Rejected ''cannot parse'')),
      prepareFilesToFlash =
        (\<lambda>knownApp parsedFiles i platformName target. Inr (False, parsedFiles)),
      processBundle = (\<lambda>filesToFlash. Inr filesToFlash) \<rparr>"

definition example_environment :: "device list environment" where
  "example_environment =
    \<lparr> env_collaborators = example_collaborators, env_cloud = example_cloud,
      env_host = example_host, env_usb = example_usb \<rparr>"

section \<open>Properties of the flash step planner\<close>

subsection \<open>The plan is the three buckets\<close>

lemma planModule_None: "planModule C None acc m \<noteq> Inr r"
  by (simp add: planModule_def split: prod.splits sum.splits)

lemma planModule_Some:
  "planModule C (Some p) (a, n, d) m = Inr (a1, n1, d1) \<Longrightarrow>
     a1 = a @ spec_assetModules C [m] \<and>
     n1 = n @ spec_normalModules C (Some p) [m] \<and>
     d1 = d @ spec_bulkModules C (Some p) [m]"
  by (auto simp: planModule_def Let_def spec_assetModules_def spec_normalModules_def
        spec_bulkModules_def spec_isAsset_def spec_isNormal_def spec_isBulk_def
        spec_storageClass_def spec_moduleType_def spec_legacySteps_def spec_legacyRegion_def
        spec_needsInvalidation_def spec_normalStep_def spec_bulkStep_def
        DEVICE_OS_MIN_VERSION_TO_FORMAT_128K_USER_def
      split: option.splits if_splits sum.splits)

lemma spec_assetModules_append:
  "spec_assetModules C (xs @ ys) = spec_assetModules C xs @ spec_assetModules C ys"
  by (simp add: spec_assetModules_def)

lemma spec_normalModules_append:
  "spec_normalModules C pl (xs @ ys) = spec_normalModules C pl xs @ spec_normalModules C pl ys"
  by (simp add: spec_normalModules_def)

lemma spec_bulkModules_append:
  "spec_bulkModules C pl (xs @ ys) = spec_bulkModules C pl xs @ spec_bulkModules C pl ys"
  by (simp add: spec_bulkModules_def)

lemma forEachModule_buckets:
  "forEachModule C platform (a, n, d) ms = Inr (a1, n1, d1) \<Longrightarrow>
     a1 = a @ spec_assetModules C ms \<and>
     n1 = n @ spec_normalModules C platform ms \<and>
     d1 = d @ spec_bulkModules C platform ms"
proof (induction ms arbitrary: a n d)
  case Nil
  then show ?case
    by (simp add: spec_assetModules_def spec_normalModules_def spec_bulkModules_def)
next
  case (Cons m ms)
  show ?case
  proof (cases platform)
    case None
    with Cons.prems show ?thesis by (simp add: planModule_None split: sum.splits)
  next
    case (Some p)
    from Cons.prems obtain a2 n2 d2 where
      step: "planModule C (Some p) (a, n, d) m = Inr (a2, n2, d2)" and
      rest: "forEachModule C platform (a2, n2, d2) ms = Inr (a1, n1, d1)"
      using Some by (auto split: sum.splits)
    from planModule_Some[OF step] Cons.IH[OF rest] Some
    show ?thesis
      using spec_assetModules_append[of C "[m]" ms]
        spec_normalModules_append[of C "Some p" "[m]" ms]
        spec_bulkModules_append[of C "Some p" "[m]" ms]
      by simp
  qed
qed

lemma createFlashSteps_buckets:
  assumes "createFlashSteps C modules isInDfuMode platformId = Inr steps"
  shows "steps =
    (let platform = find (\<lambda>p. platform_id p = platformId) (PLATFORMS C);
         sortedModules = sortBinariesByDependency C modules
     in if isInDfuMode
        then spec_bulkModules C platform sortedModules @ spec_normalModules C platform sortedModules
               @ spec_assetModules C sortedModules
        else spec_normalModules C platform sortedModules @ spec_bulkModules C platform sortedModules
               @ spec_assetModules C sortedModules)"
proof -
  let ?pl = "find (\<lambda>p. platform_id p = platformId) (PLATFORMS C)"
  let ?so = "sortBinariesByDependency C modules"
  from assms obtain a n d where
    run: "forEachModule C ?pl ([], [], []) ?so = Inr (a, n, d)" and
    out: "steps = (if isInDfuMode then d @ n @ a else n @ d @ a)"
    by (auto simp: createFlashSteps_def Let_def split: sum.splits prod.splits)
  from forEachModule_buckets[OF run] out show ?thesis by (simp add: Let_def)
qed

text \<open>The planner returns a plan exactly when it can place every module that the sorter
  hands it.\<close>

lemma planModule_returns:
  "(\<exists>r. planModule C platform acc m = Inr r) \<longleftrightarrow> spec_plannable C platform m"
proof -
  obtain a n d where acc: "acc = (a, n, d)" by (cases acc) auto
  show ?thesis
    unfolding acc
    by (auto simp: planModule_def Let_def spec_plannable_def spec_moduleType_def
          split: option.splits sum.splits)
qed

lemma forEachModule_returns:
  "(\<exists>r. forEachModule C platform acc ms = Inr r) \<longleftrightarrow> list_all (spec_plannable C platform) ms"
proof (induction ms arbitrary: acc)
  case Nil
  show ?case by (simp del: split_paired_Ex)
next
  case (Cons m ms)
  show ?case
  proof (cases "planModule C platform acc m")
    case (Inl e)
    then have "\<not> (\<exists>r. planModule C platform acc m = Inr r)" by simp
    with Inl show ?thesis unfolding planModule_returns by simp
  next
    case (Inr acc1)
    then have "\<exists>r. planModule C platform acc m = Inr r" by blast
    then have here: "spec_plannable C platform m"
      unfolding planModule_returns .
    have "forEachModule C platform acc (m # ms) = forEachModule C platform acc1 ms"
      using Inr by simp
    then show ?thesis using Cons.IH[of acc1] here by simp
  qed
qed

lemma createFlashSteps_returns:
  "(\<exists>steps. createFlashSteps C modules isInDfuMode platformId = Inr steps) \<longleftrightarrow>
     list_all (spec_plannable C (find (\<lambda>p. platform_id p = platformId) (PLATFORMS C)))
       (sortBinariesByDependency C modules)"
proof -
  let ?pl = "find (\<lambda>p. platform_id p = platformId) (PLATFORMS C)"
  have "(\<exists>steps. createFlashSteps C modules isInDfuMode platformId = Inr steps)
      \<longleftrightarrow> (\<exists>r. forEachModule C ?pl ([], [], []) (sortBinariesByDependency C modules) = Inr r)"
    by (auto simp: createFlashSteps_def Let_def split: sum.splits prod.splits)
  then show ?thesis unfolding forEachModule_returns .
qed

lemma fromAsset_asset: "s \<in> set (spec_assetModules C xs) \<Longrightarrow> fromAssetModule C s"
  by (auto simp: spec_assetModules_def fromAssetModule_def spec_normalStep_def flashStep_def
        spec_isAsset_def spec_moduleType_def)

lemma fromAsset_normal: "s \<in> set (spec_normalModules C pl xs) \<Longrightarrow> \<not> fromAssetModule C s"
  by (auto simp: spec_normalModules_def fromAssetModule_def spec_normalStep_def flashStep_def
        spec_isNormal_def spec_isAsset_def spec_moduleType_def)

lemma fromAsset_bulk: "s \<in> set (spec_bulkModules C pl xs) \<Longrightarrow> \<not> fromAssetModule C s"
  by (auto simp: spec_bulkModules_def fromAssetModule_def spec_bulkStep_def flashStep_def
        spec_isBulk_def spec_isAsset_def spec_moduleType_def spec_legacySteps_def
        formerUserPartflashStep_def split: option.splits if_splits)

lemma asset_after:
  assumes A: "\<forall>s\<in>set xs. \<not> P s" and B: "\<forall>s\<in>set ys. P s"
    and i: "i < length (xs @ ys)" and j: "j < length (xs @ ys)"
    and Pi: "P ((xs @ ys) ! i)" and Pj: "\<not> P ((xs @ ys) ! j)"
  shows "j < i"
proof -
  have "\<not> i < length xs" using A Pi by (auto simp: nth_append)
  moreover have "j < length xs"
  proof (rule ccontr)
    assume "\<not> j < length xs"
    then have "(xs @ ys) ! j = ys ! (j - length xs)" and "j - length xs < length ys"
      using j by (auto simp: nth_append)
    then show False using B Pj by (metis nth_mem)
  qed
  ultimately show ?thesis by simp
qed

lemmas example_defs =
  example_platform_def example_slots_def example_collaborators_def example_module_def
  example_bootloader_def example_userPart_def example_asset_def example_ncp_def

lemma example_find:
  "find (\<lambda>p. platform_id p = 32) (PLATFORMS example_collaborators) = Some example_platform"
  by (simp add: example_collaborators_def example_platform_def)

lemma example_sorter: "sortBinariesByDependency example_collaborators ms = ms"
  by (simp add: example_collaborators_def)

lemma example_plan_asset:
  "planModule example_collaborators (Some example_platform) (a, n, d) example_asset
    = Inr (a @ [spec_normalStep example_collaborators example_asset], n, d)"
  by (simp add: planModule_def example_defs Let_def spec_normalStep_def)

lemma example_plan_bootloader:
  "planModule example_collaborators (Some example_platform) (a, n, d) example_bootloader
    = Inr (a, n @ [spec_normalStep example_collaborators example_bootloader], d)"
  by (simp add: planModule_def example_defs Let_def spec_normalStep_def)

lemma example_plan_userPart:
  "planModule example_collaborators (Some example_platform) (a, n, d) example_userPart
    = Inr (a, n, d @ [formerUserPartflashStep \<lparr> seg_address = ''0x08000000'', seg_size = 4 \<rparr>,
                      spec_bulkStep example_collaborators example_userPart])"
  by (simp add: planModule_def example_defs Let_def spec_bulkStep_def
        DEVICE_OS_MIN_VERSION_TO_FORMAT_128K_USER_def)

lemma example_plan_systemPart:
  "planModule example_collaborators (Some example_platform) (a, n, d) example_systemPart
    = Inr (a, n, d @ [spec_bulkStep example_collaborators example_systemPart])"
  by (simp add: planModule_def example_defs example_systemPart_def Let_def spec_bulkStep_def)

lemma example_plan:
  "createFlashSteps example_collaborators [example_asset, example_bootloader, example_userPart] True 32
    = Inr [formerUserPartflashStep \<lparr> seg_address = ''0x08000000'', seg_size = 4 \<rparr>,
           spec_bulkStep example_collaborators example_userPart,
           spec_normalStep example_collaborators example_bootloader,
           spec_normalStep example_collaborators example_asset]"
  by (simp add: createFlashSteps_def example_find example_sorter example_plan_asset
        example_plan_bootloader example_plan_userPart)

lemma example_plannable:
  "list_all (spec_plannable example_collaborators (Some example_platform))
     [example_asset, example_bootloader, example_userPart]"
  by (simp add: spec_plannable_def spec_moduleType_def example_defs)

text \<open>
  Claim C1, as the code has it. The planner returns a plan on every input on which it can
  place every module: the platform is in the table and has slots, the type of every module
  has a name, and the platform has a slot for the type of every module that is neither an
  asset nor a boot loader. Whenever the planner returns a plan, the plan is the bulk bucket,
  the normal bucket and the asset bucket in this order when the device is in DFU mode, and
  the normal bucket, the bulk bucket and the asset bucket otherwise; and every step that
  comes from an asset module stands after every step that does not.
\<close>

theorem C1_plan_order:
  "(let platform = find (\<lambda>p. platform_id p = platformId) (PLATFORMS C);
        sortedModules = sortBinariesByDependency C modules;
        plan = (if isInDfuMode
                then spec_bulkModules C platform sortedModules
                       @ spec_normalModules C platform sortedModules
                       @ spec_assetModules C sortedModules
                else spec_normalModules C platform sortedModules
                       @ spec_bulkModules C platform sortedModules
                       @ spec_assetModules C sortedModules)
    in (list_all (spec_plannable C platform) sortedModules
          \<longrightarrow> createFlashSteps C modules isInDfuMode platformId = Inr plan)
       \<and> (\<forall>steps. createFlashSteps C modules isInDfuMode platformId = Inr steps
             \<longrightarrow> steps = plan
                 \<and> (\<forall>i j. i < length steps \<and> j < length steps
                        \<and> fromAssetModule C (steps ! i) \<and> \<not> fromAssetModule C (steps ! j)
                      \<longrightarrow> j < i)))"
proof -
  define platform where "platform = find (\<lambda>p. platform_id p = platformId) (PLATFORMS C)"
  define sortedModules where "sortedModules = sortBinariesByDependency C modules"
  define front where "front = (if isInDfuMode
        then spec_bulkModules C platform sortedModules @ spec_normalModules C platform sortedModules
        else spec_normalModules C platform sortedModules @ spec_bulkModules C platform sortedModules)"
  define plan where "plan = (if isInDfuMode
                then spec_bulkModules C platform sortedModules
                       @ spec_normalModules C platform sortedModules
                       @ spec_assetModules C sortedModules
                else spec_normalModules C platform sortedModules
                       @ spec_bulkModules C platform sortedModules
                       @ spec_assetModules C sortedModules)"
  have eq: "steps = plan" if "createFlashSteps C modules isInDfuMode platformId = Inr steps"
    for steps
    using createFlashSteps_buckets[OF that]
    by (simp add: Let_def platform_def sortedModules_def plan_def)
  have returns: "createFlashSteps C modules isInDfuMode platformId = Inr plan"
    if "list_all (spec_plannable C platform) sortedModules"
  proof -
    from that obtain steps where run: "createFlashSteps C modules isInDfuMode platformId = Inr steps"
      using createFlashSteps_returns[of C modules isInDfuMode platformId]
      unfolding platform_def sortedModules_def by blast
    with eq[OF run] show ?thesis by simp
  qed
  have plan: "plan = front @ spec_assetModules C sortedModules"
    by (simp add: plan_def front_def)
  have A: "\<forall>s\<in>set front. \<not> fromAssetModule C s"
    using fromAsset_normal fromAsset_bulk by (auto simp: front_def)
  have B: "\<forall>s\<in>set (spec_assetModules C sortedModules). fromAssetModule C s"
    using fromAsset_asset by blast
  have order: "\<forall>i j. i < length plan \<and> j < length plan
            \<and> fromAssetModule C (plan ! i) \<and> \<not> fromAssetModule C (plan ! j) \<longrightarrow> j < i"
    unfolding plan using asset_after[OF A B] by blast
  have "(list_all (spec_plannable C platform) sortedModules
          \<longrightarrow> createFlashSteps C modules isInDfuMode platformId = Inr plan)
       \<and> (\<forall>steps. createFlashSteps C modules isInDfuMode platformId = Inr steps
             \<longrightarrow> steps = plan
                 \<and> (\<forall>i j. i < length steps \<and> j < length steps
                        \<and> fromAssetModule C (steps ! i) \<and> \<not> fromAssetModule C (steps ! j)
                      \<longrightarrow> j < i))"
    using returns eq order by blast
  then show ?thesis
    unfolding Let_def platform_def sortedModules_def plan_def .
qed

theorem C1_plan_order_witness:
  "list_all (spec_plannable example_collaborators (Some example_platform))
     [example_asset, example_bootloader, example_userPart]
   \<and> createFlashSteps example_collaborators [example_asset, example_bootloader, example_userPart] True 32
    = Inr (spec_bulkModules example_collaborators (Some example_platform)
            [example_asset, example_bootloader, example_userPart]
        @ spec_normalModules example_collaborators (Some example_platform)
            [example_asset, example_bootloader, example_userPart]
        @ spec_assetModules example_collaborators
            [example_asset, example_bootloader, example_userPart])
   \<and> spec_bulkModules example_collaborators (Some example_platform)
            [example_asset, example_bootloader, example_userPart]
        @ spec_normalModules example_collaborators (Some example_platform)
            [example_asset, example_bootloader, example_userPart]
        @ spec_assetModules example_collaborators
            [example_asset, example_bootloader, example_userPart]
      = [formerUserPartflashStep \<lparr> seg_address = ''0x08000000'', seg_size = 4 \<rparr>,
           spec_bulkStep example_collaborators example_userPart,
           spec_normalStep example_collaborators example_bootloader,
           spec_normalStep example_collaborators example_asset]"
  using C1_plan_order[where C = example_collaborators and platformId = 32
      and modules = "[example_asset, example_bootloader, example_userPart]" and isInDfuMode = True]
    example_plannable example_plan
  by (simp add: Let_def example_find example_sorter)

text \<open>A radio stack on a platform without a slot of that type: the planner raises a
  TypeError and returns no plan.\<close>

theorem C1_plan_order_counterexample:
  "createFlashSteps example_collaborators [example_radio] True 32 = Inl TypeError
   \<and> find (\<lambda>p. platform_id p = 32) (PLATFORMS example_collaborators) = Some example_platform"
  by (simp add: createFlashSteps_def planModule_def example_defs example_radio_def Let_def)

subsection \<open>The legacy-invalidation step\<close>

lemma eachGuarded_append:
  "eachGuarded syn Q xs \<Longrightarrow> eachGuarded syn Q ys \<Longrightarrow> eachGuarded syn Q (xs @ ys)"
proof (induction syn Q xs rule: eachGuarded.induct)
  case (1 syn Q)
  then show ?case by simp
next
  case (2 syn Q s)
  then show ?case by (cases ys) simp_all
next
  case (3 syn Q s t rest)
  then show ?case by simp
qed

lemma eachGuarded_plain: "\<forall>x\<in>set xs. \<not> syn x \<Longrightarrow> eachGuarded syn Q xs"
  by (induction syn Q xs rule: eachGuarded.induct) simp_all

lemma eachGuarded_nth:
  "eachGuarded syn Q xs \<Longrightarrow> i < length xs \<Longrightarrow> syn (xs ! i)
    \<Longrightarrow> Suc i < length xs \<and> Q (xs ! i) (xs ! Suc i)"
proof (induction syn Q xs arbitrary: i rule: eachGuarded.induct)
  case (1 syn Q)
  then show ?case by simp
next
  case (2 syn Q s)
  then show ?case by simp
next
  case (3 syn Q s t rest)
  show ?case
  proof (cases i)
    case 0
    with 3 show ?thesis by simp
  next
    case (Suc k)
    with 3 have "Suc k < length (t # rest) \<and> Q ((t # rest) ! k) ((t # rest) ! Suc k)"
      by simp
    with Suc show ?thesis by simp
  qed
qed

lemma moduleInfo_flashStep: "moduleInfo (flashStep C m mode a) \<noteq> None"
  by (simp add: flashStep_def)

lemma normal_not_synthetic: "s \<in> set (spec_normalModules C pl xs) \<Longrightarrow> moduleInfo s \<noteq> None"
  by (auto simp: spec_normalModules_def spec_normalStep_def flashStep_def)

lemma asset_not_synthetic: "s \<in> set (spec_assetModules C xs) \<Longrightarrow> moduleInfo s \<noteq> None"
  by (auto simp: spec_assetModules_def spec_normalStep_def flashStep_def)

lemma bulk_synthetic_iff:
  "(\<exists>s\<in>set (spec_bulkModules C pl ms). moduleInfo s = None) \<longleftrightarrow>
   (\<exists>former m. spec_legacyRegion pl = Some former \<and> m \<in> set ms \<and> spec_isBulk C pl m
       \<and> spec_needsInvalidation C m)"
  by (cases "spec_legacyRegion pl")
     (auto simp: spec_bulkModules_def spec_bulkStep_def flashStep_def spec_legacySteps_def
        formerUserPartflashStep_def split: if_splits)

lemma bulk_guarded:
  "set ms \<subseteq> set sortedModules \<Longrightarrow>
   eachGuarded (\<lambda>s. moduleInfo s = None) (guards C pl sortedModules) (spec_bulkModules C pl ms)"
proof (induction ms)
  case Nil
  then show ?case by (simp add: spec_bulkModules_def)
next
  case (Cons m ms)
  then have rest: "eachGuarded (\<lambda>s. moduleInfo s = None) (guards C pl sortedModules)
      (spec_bulkModules C pl ms)" and mem: "m \<in> set sortedModules"
    by simp_all
  have split: "spec_bulkModules C pl (m # ms) = spec_bulkModules C pl [m] @ spec_bulkModules C pl ms"
    using spec_bulkModules_append[of C pl "[m]" ms] by simp
  have "eachGuarded (\<lambda>s. moduleInfo s = None) (guards C pl sortedModules) (spec_bulkModules C pl [m])"
    using mem
    by (cases "spec_legacyRegion pl")
       (auto simp: spec_bulkModules_def spec_legacySteps_def guards_def list_ex_iff
          spec_bulkStep_def flashStep_def)
  with rest show ?case unfolding split by (rule eachGuarded_append[rotated])
qed

text \<open>
  The address of the legacy-invalidation step, for a region whose address is written as
  \<^verbatim>\<open>0x\<close> and hexadecimal digits: the number these digits denote.
\<close>

lemma hexValue_cases:
  "hexValue c \<noteq> None \<Longrightarrow> c \<in> set (map fst hexDigits)"
  unfolding hexValue_def by (simp add: map_of_eq_None_iff)

lemma hex_not_special:
  assumes "hexValue c \<noteq> None"
  shows "\<not> isWhiteSpace c" and "c \<noteq> CHR ''-''" and "c \<noteq> CHR ''+''"
    and "c \<noteq> CHR ''x''" and "c \<noteq> CHR ''X''"
  using hexValue_cases[OF assms] by (auto simp: hexDigits_def isWhiteSpace_def)

lemma replaceFirst_prefix: "replaceFirst pat rep (pat @ rest) = rep @ rest"
proof (cases "pat @ rest")
  case Nil
  then show ?thesis by simp
next
  case (Cons a list)
  have "take (length pat) (a # list) = pat" and "drop (length pat) (a # list) = rest"
    unfolding Cons[symmetric] by simp_all
  then show ?thesis unfolding Cons by simp
qed

lemma parseInt16_digits:
  assumes "ds \<noteq> []" and "\<forall>c\<in>set ds. hexValue c \<noteq> None"
  shows "parseInt16 ds
    = Num (foldl (\<lambda>a c. 16 * a + (case hexValue c of None \<Rightarrow> 0 | Some d \<Rightarrow> d)) 0 ds)"
proof -
  obtain c cs where ds: "ds = c # cs" using assms(1) by (cases ds) auto
  have c: "hexValue c \<noteq> None" using assms(2) ds by simp
  have ws: "dropWhile isWhiteSpace ds = ds" using hex_not_special(1)[OF c] ds by simp
  have sign: "take 1 ds \<noteq> ''-''" "take 1 ds \<noteq> ''+''"
    using hex_not_special(2,3)[OF c] ds by auto
  have pre: "take 2 ds \<noteq> ''0x''" "take 2 ds \<noteq> ''0X''"
  proof -
    show "take 2 ds \<noteq> ''0x''"
    proof (cases cs)
      case Nil
      with ds show ?thesis by simp
    next
      case (Cons d rest)
      with assms(2) ds have "hexValue d \<noteq> None" by simp
      from hex_not_special(4)[OF this] ds Cons show ?thesis by auto
    qed
    show "take 2 ds \<noteq> ''0X''"
    proof (cases cs)
      case Nil
      with ds show ?thesis by simp
    next
      case (Cons d rest)
      with assms(2) ds have "hexValue d \<noteq> None" by simp
      from hex_not_special(5)[OF this] ds Cons show ?thesis by auto
    qed
  qed
  have tw: "takeWhile (\<lambda>c. hexValue c \<noteq> None) ds = ds"
    using assms(2) by (simp add: takeWhile_eq_all_conv)
  have s1: "(if take 1 ds = ''+'' \<or> take 1 ds = ''-'' then drop 1 ds else ds) = ds"
    using sign by simp
  have s2: "(if take 2 ds = ''0x'' \<or> take 2 ds = ''0X'' then drop 2 ds else ds) = ds"
    using pre by simp
  show ?thesis
    unfolding parseInt16_def Let_def ws s1 s2 tw using sign assms(1) by simp
qed

lemma legacy_address_hex:
  assumes "ds \<noteq> []" and "\<forall>c\<in>set ds. hexValue c \<noteq> None"
  shows "address (formerUserPartflashStep \<lparr> seg_address = ''0x'' @ ds, seg_size = n \<rparr>)
    = Some (Num (foldl (\<lambda>a c. 16 * a + (case hexValue c of None \<Rightarrow> 0 | Some d \<Rightarrow> d)) 0 ds))"
  using parseInt16_digits[OF assms] replaceFirst_prefix[of "''0x''" "[]" ds]
  by (simp add: formerUserPartflashStep_def)

lemma plan_guarded:
  assumes "createFlashSteps C modules isInDfuMode platformId = Inr steps"
  shows "eachGuarded (\<lambda>s. moduleInfo s = None)
           (guards C (find (\<lambda>p. platform_id p = platformId) (PLATFORMS C))
              (sortBinariesByDependency C modules)) steps"
proof -
  let ?pl = "find (\<lambda>p. platform_id p = platformId) (PLATFORMS C)"
  let ?so = "sortBinariesByDependency C modules"
  let ?G = "eachGuarded (\<lambda>s. moduleInfo s = None) (guards C ?pl ?so)"
  have b: "?G (spec_bulkModules C ?pl ?so)" by (rule bulk_guarded) simp
  have n: "?G (spec_normalModules C ?pl ?so)"
    by (rule eachGuarded_plain) (use normal_not_synthetic in blast)
  have a: "?G (spec_assetModules C ?so)"
    by (rule eachGuarded_plain) (use asset_not_synthetic in blast)
  show ?thesis
    using createFlashSteps_buckets[OF assms] a b n
    by (simp add: Let_def eachGuarded_append split: if_splits)
qed

lemma plan_synthetic_iff:
  assumes "createFlashSteps C modules isInDfuMode platformId = Inr steps"
  shows "(\<exists>s\<in>set steps. moduleInfo s = None) \<longleftrightarrow>
         (\<exists>former m. spec_legacyRegion (find (\<lambda>p. platform_id p = platformId) (PLATFORMS C)) = Some former
            \<and> m \<in> set (sortBinariesByDependency C modules)
            \<and> spec_isBulk C (find (\<lambda>p. platform_id p = platformId) (PLATFORMS C)) m
            \<and> spec_needsInvalidation C m)"
proof -
  let ?pl = "find (\<lambda>p. platform_id p = platformId) (PLATFORMS C)"
  let ?so = "sortBinariesByDependency C modules"
  have "set steps = set (spec_bulkModules C ?pl ?so) \<union> set (spec_normalModules C ?pl ?so)
          \<union> set (spec_assetModules C ?so)"
    using createFlashSteps_buckets[OF assms] by (auto simp: Let_def split: if_splits)
  then have "(\<exists>s\<in>set steps. moduleInfo s = None)
      \<longleftrightarrow> (\<exists>s\<in>set (spec_bulkModules C ?pl ?so). moduleInfo s = None)"
    using normal_not_synthetic asset_not_synthetic by blast
  then show ?thesis by (simp only: bulk_synthetic_iff)
qed

text \<open>
  Claim C2, as the code has it. A step without \<open>moduleInfo\<close> is a synthetic
  legacy-invalidation step. Whenever the planner returns a plan, the plan holds such a step
  if and only if the platform declares a former user-part region and a module of type
  \<open>userPart\<close> that is routed to the bulk bucket requires a base firmware of version 3103
  or later. Every such step has mode \<open>dfu\<close>, targets the address of the region, carries as
  many bytes as the region is long, all of them 0xFF, and stands immediately before the
  bulk step of such a user-part module.
\<close>

theorem C2_legacy_invalidation:
  assumes "createFlashSteps C modules isInDfuMode platformId = Inr steps"
  shows "(let platform = find (\<lambda>p. platform_id p = platformId) (PLATFORMS C);
              sortedModules = sortBinariesByDependency C modules
          in ((\<exists>s\<in>set steps. moduleInfo s = None) \<longleftrightarrow>
                (\<exists>former m. spec_legacyRegion platform = Some former \<and> m \<in> set sortedModules
                   \<and> spec_isBulk C platform m \<and> spec_moduleType C m = Inr ''userPart''
                   \<and> depModuleVersion (prefixInfo m) \<ge> 3103))
           \<and> (\<forall>i. i < length steps \<and> moduleInfo (steps ! i) = None \<longrightarrow>
                (\<exists>former m. spec_legacyRegion platform = Some former
                   \<and> name (steps ! i) = ''invalidate-128k-user-part''
                   \<and> flashMode (steps ! i) = dfu
                   \<and> address (steps ! i)
                       = Some (parseInt16 (replaceFirst ''0x'' [] (seg_address former)))
                   \<and> length (data (steps ! i)) = seg_size former
                   \<and> (\<forall>b\<in>set (data (steps ! i)). b = 0xFF)
                   \<and> Suc i < length steps
                   \<and> steps ! Suc i = spec_bulkStep C m
                   \<and> m \<in> set sortedModules \<and> spec_isBulk C platform m
                   \<and> spec_moduleType C m = Inr ''userPart''
                   \<and> depModuleVersion (prefixInfo m) \<ge> 3103)))"
proof -
  let ?pl = "find (\<lambda>p. platform_id p = platformId) (PLATFORMS C)"
  let ?so = "sortBinariesByDependency C modules"
  have iff: "(\<exists>s\<in>set steps. moduleInfo s = None) \<longleftrightarrow>
                (\<exists>former m. spec_legacyRegion ?pl = Some former \<and> m \<in> set ?so
                   \<and> spec_isBulk C ?pl m \<and> spec_moduleType C m = Inr ''userPart''
                   \<and> depModuleVersion (prefixInfo m) \<ge> 3103)"
    using plan_synthetic_iff[OF assms] by (simp add: spec_needsInvalidation_def)
  have each: "\<exists>former m. spec_legacyRegion ?pl = Some former
                   \<and> name (steps ! i) = ''invalidate-128k-user-part''
                   \<and> flashMode (steps ! i) = dfu
                   \<and> address (steps ! i)
                       = Some (parseInt16 (replaceFirst ''0x'' [] (seg_address former)))
                   \<and> length (data (steps ! i)) = seg_size former
                   \<and> (\<forall>b\<in>set (data (steps ! i)). b = 0xFF)
                   \<and> Suc i < length steps
                   \<and> steps ! Suc i = spec_bulkStep C m
                   \<and> m \<in> set ?so \<and> spec_isBulk C ?pl m
                   \<and> spec_moduleType C m = Inr ''userPart''
                   \<and> depModuleVersion (prefixInfo m) \<ge> 3103"
    if i: "i < length steps" and syn: "moduleInfo (steps ! i) = None" for i
  proof -
    from eachGuarded_nth[OF plan_guarded[OF assms] i] syn
    have len: "Suc i < length steps" and g: "guards C ?pl ?so (steps ! i) (steps ! Suc i)"
      by simp_all
    from g obtain former m where
      "spec_legacyRegion ?pl = Some former" "steps ! i = formerUserPartflashStep former"
      "steps ! Suc i = spec_bulkStep C m" "m \<in> set ?so" "spec_isBulk C ?pl m"
      "spec_needsInvalidation C m"
      unfolding guards_def by (auto simp: list_ex_iff split: option.splits)
    with len show ?thesis
      by (intro exI[of _ former] exI[of _ m])
         (simp add: formerUserPartflashStep_def spec_needsInvalidation_def)
  qed
  show ?thesis unfolding Let_def using iff each by blast
qed

lemma example_address: "parseInt16 (replaceFirst ''0x'' [] ''0x08000000'') = Num 134217728"
  by (simp add: parseInt16_def isWhiteSpace_def hexValue_def hexDigits_def Let_def)

lemma example_fill: "replicate 4 (0xFF :: 8 word) = [0xFF, 0xFF, 0xFF, 0xFF]"
  by code_simp

theorem C2_legacy_invalidation_witness:
  "createFlashSteps example_collaborators [example_asset, example_bootloader, example_userPart] True 32
    = Inr [formerUserPartflashStep \<lparr> seg_address = ''0x08000000'', seg_size = 4 \<rparr>,
           spec_bulkStep example_collaborators example_userPart,
           spec_normalStep example_collaborators example_bootloader,
           spec_normalStep example_collaborators example_asset]
   \<and> formerUserPartflashStep \<lparr> seg_address = ''0x08000000'', seg_size = 4 \<rparr>
      = \<lparr> name = ''invalidate-128k-user-part'', moduleInfo = None,
          data = [0xFF, 0xFF, 0xFF, 0xFF], flashMode = dfu, address = Some (Num 134217728) \<rparr>
   \<and> (\<exists>former m. spec_legacyRegion (Some example_platform) = Some former
         \<and> m \<in> set [example_asset, example_bootloader, example_userPart]
         \<and> spec_isBulk example_collaborators (Some example_platform) m
         \<and> spec_moduleType example_collaborators m = Inr ''userPart''
         \<and> depModuleVersion (prefixInfo m) \<ge> 3103)"
proof -
  have syn: "\<exists>s\<in>set [formerUserPartflashStep \<lparr> seg_address = ''0x08000000'', seg_size = 4 \<rparr>,
           spec_bulkStep example_collaborators example_userPart,
           spec_normalStep example_collaborators example_bootloader,
           spec_normalStep example_collaborators example_asset]. moduleInfo s = None"
    by (simp add: formerUserPartflashStep_def)
  have val: "formerUserPartflashStep \<lparr> seg_address = ''0x08000000'', seg_size = 4 \<rparr>
      = \<lparr> name = ''invalidate-128k-user-part'', moduleInfo = None,
          data = [0xFF, 0xFF, 0xFF, 0xFF], flashMode = dfu, address = Some (Num 134217728) \<rparr>"
    unfolding formerUserPartflashStep_def segment.simps example_address example_fill
    by (rule refl)
  show ?thesis
    using C2_legacy_invalidation[OF example_plan] syn val example_plan
    by (simp add: Let_def example_collaborators_def example_platform_def)
qed

theorem C2_legacy_counterexample:
  "createFlashSteps (example_collaborators \<lparr> PLATFORMS := [example_externalUserPlatform] \<rparr>)
      [example_userPart] False 77
     = Inr [spec_normalStep (example_collaborators \<lparr> PLATFORMS := [example_externalUserPlatform] \<rparr>)
              example_userPart]
   \<and> moduleInfo (spec_normalStep (example_collaborators \<lparr> PLATFORMS := [example_externalUserPlatform] \<rparr>)
              example_userPart) \<noteq> None
   \<and> formerUserPart example_externalUserPlatform = Some \<lparr> seg_address = ''0x08000000'', seg_size = 4 \<rparr>
   \<and> moduleFunction (prefixInfo example_userPart) = USER_PART
   \<and> example_typeToString USER_PART = Inr ''userPart''
   \<and> depModuleVersion (prefixInfo example_userPart) \<ge> 3103"
  by (simp add: createFlashSteps_def planModule_def example_defs example_externalUserPlatform_def
        Let_def spec_normalStep_def flashStep_def)

subsection \<open>The order within a bucket\<close>

lemma dependenciesFirst_iff:
  "dependenciesFirst R xs \<longleftrightarrow> sorted_wrt (\<lambda>a b. \<not> R a b) xs \<and> (\<forall>x\<in>set xs. \<not> R x x)"
proof
  assume d: "dependenciesFirst R xs"
  have "sorted_wrt (\<lambda>a b. \<not> R a b) xs"
    unfolding sorted_wrt_iff_nth_less
  proof (intro allI impI)
    fix i j assume "i < j" "j < length xs"
    then show "\<not> R (xs ! i) (xs ! j)"
      using d unfolding dependenciesFirst_def by (meson less_trans not_less_iff_gr_or_eq)
  qed
  moreover have "\<forall>x\<in>set xs. \<not> R x x"
    using d unfolding dependenciesFirst_def by (metis in_set_conv_nth less_irrefl)
  ultimately show "sorted_wrt (\<lambda>a b. \<not> R a b) xs \<and> (\<forall>x\<in>set xs. \<not> R x x)" ..
next
  assume a: "sorted_wrt (\<lambda>a b. \<not> R a b) xs \<and> (\<forall>x\<in>set xs. \<not> R x x)"
  show "dependenciesFirst R xs"
    unfolding dependenciesFirst_def
  proof (intro allI impI)
    fix i j assume i: "i < length xs" and j: "j < length xs" and r: "R (xs ! i) (xs ! j)"
    have "\<not> i < j" using a r j by (auto simp: sorted_wrt_iff_nth_less)
    moreover have "i \<noteq> j" using a r i by (metis nth_mem)
    ultimately show "j < i" by simp
  qed
qed

lemma stepDependsOn_normal [simp]:
  "stepDependsOn dep (spec_normalStep C a) (spec_normalStep C b)
     = dep (spec_moduleInfo a) (spec_moduleInfo b)"
  by (simp add: stepDependsOn_def spec_normalStep_def flashStep_def spec_moduleInfo_def)

lemma stepDependsOn_bulk [simp]:
  "stepDependsOn dep (spec_bulkStep C a) (spec_bulkStep C b)
     = dep (spec_moduleInfo a) (spec_moduleInfo b)"
  by (simp add: stepDependsOn_def spec_bulkStep_def flashStep_def spec_moduleInfo_def)

lemma stepDependsOn_synthetic [simp]:
  "\<not> stepDependsOn dep (formerUserPartflashStep f) t"
  "\<not> stepDependsOn dep s (formerUserPartflashStep f)"
  by (simp_all add: stepDependsOn_def formerUserPartflashStep_def split: option.splits)

lemma dependenciesFirst_map_filter:
  assumes "dependenciesFirst (\<lambda>a b. dep (spec_moduleInfo a) (spec_moduleInfo b)) ms"
  shows "dependenciesFirst (stepDependsOn dep) (map (spec_normalStep C) (filter P ms))"
  using assms
  by (auto simp: dependenciesFirst_iff sorted_wrt_map sorted_wrt_filter)

lemma legacySteps_cases:
  "spec_legacySteps C pl m = [] \<or> (\<exists>f. spec_legacySteps C pl m = [formerUserPartflashStep f])"
  by (auto simp: spec_legacySteps_def split: option.splits)

lemma bulk_set:
  "s \<in> set (concat (map (\<lambda>m. spec_legacySteps C pl m @ [spec_bulkStep C m]) xs)) \<Longrightarrow>
     (\<exists>f. s = formerUserPartflashStep f) \<or> (\<exists>m\<in>set xs. s = spec_bulkStep C m)"
proof (induction xs)
  case Nil
  then show ?case by simp
next
  case (Cons a xs)
  then show ?case using legacySteps_cases[of C pl a] by auto
qed

lemma dependenciesFirst_bulk_aux:
  assumes "sorted_wrt (\<lambda>a b. \<not> dep (spec_moduleInfo a) (spec_moduleInfo b)) xs"
    and "\<forall>x\<in>set xs. \<not> dep (spec_moduleInfo x) (spec_moduleInfo x)"
  shows "sorted_wrt (\<lambda>s t. \<not> stepDependsOn dep s t)
           (concat (map (\<lambda>m. spec_legacySteps C pl m @ [spec_bulkStep C m]) xs))"
  using assms
proof (induction xs)
  case Nil
  then show ?case by simp
next
  case (Cons m xs)
  let ?rest = "concat (map (\<lambda>m. spec_legacySteps C pl m @ [spec_bulkStep C m]) xs)"
  have rest: "sorted_wrt (\<lambda>s t. \<not> stepDependsOn dep s t) ?rest"
    using Cons by simp
  have later: "\<not> stepDependsOn dep (spec_bulkStep C m) t" if "t \<in> set ?rest" for t
    using bulk_set[OF that] Cons.prems(1) by auto
  show ?case
    using legacySteps_cases[of C pl m] rest later
    by (auto simp: sorted_wrt_append)
qed

lemma dependenciesFirst_bulk:
  assumes "dependenciesFirst (\<lambda>a b. dep (spec_moduleInfo a) (spec_moduleInfo b)) ms"
  shows "dependenciesFirst (stepDependsOn dep) (spec_bulkModules C pl ms)"
proof -
  let ?xs = "filter (spec_isBulk C pl) ms"
  have s: "sorted_wrt (\<lambda>a b. \<not> dep (spec_moduleInfo a) (spec_moduleInfo b)) ?xs"
    and r: "\<forall>x\<in>set ?xs. \<not> dep (spec_moduleInfo x) (spec_moduleInfo x)"
    using assms by (auto simp: dependenciesFirst_iff sorted_wrt_filter)
  have irr: "\<not> stepDependsOn dep s s" if "s \<in> set (spec_bulkModules C pl ms)" for s
    using bulk_set[of s C pl ?xs] that r unfolding spec_bulkModules_def by auto
  show ?thesis
    unfolding dependenciesFirst_iff
    using dependenciesFirst_bulk_aux[OF s r, of C pl] irr
    by (simp add: spec_bulkModules_def)
qed

lemma legacySteps_synthetic:
  "filter (\<lambda>s. moduleInfo s \<noteq> None) (spec_legacySteps C pl m) = []"
  by (simp add: spec_legacySteps_def formerUserPartflashStep_def split: option.splits)

lemma bulk_modules_in_order:
  "map moduleInfo (filter (\<lambda>s. moduleInfo s \<noteq> None) (spec_bulkModules C pl ms))
     = map (\<lambda>m. Some (spec_moduleInfo m)) (filter (spec_isBulk C pl) ms)"
proof (induction ms)
  case Nil
  then show ?case by (simp add: spec_bulkModules_def)
next
  case (Cons m ms)
  then show ?case
    using legacySteps_synthetic[of C pl m]
    by (simp add: spec_bulkModules_def spec_bulkStep_def flashStep_def spec_moduleInfo_def)
qed

lemma normal_modules_in_order:
  "map moduleInfo (spec_normalModules C pl ms)
     = map (\<lambda>m. Some (spec_moduleInfo m)) (filter (spec_isNormal C pl) ms)"
  by (simp add: spec_normalModules_def spec_normalStep_def flashStep_def spec_moduleInfo_def)

lemma asset_modules_in_order:
  "map moduleInfo (spec_assetModules C ms)
     = map (\<lambda>m. Some (spec_moduleInfo m)) (filter (spec_isAsset C) ms)"
  by (simp add: spec_assetModules_def spec_normalStep_def flashStep_def spec_moduleInfo_def)

text \<open>
  Claim C3. Whenever the planner returns a plan, the plan is made of the three buckets, and
  in each bucket the steps of the modules stand in the order in which the dependency sorter
  returned the modules. Hence, for every dependency relation for which the sorter's output
  lists dependencies first, every bucket lists dependencies first as well: the step of a
  dependency that landed in the same bucket stands earlier, never later.
\<close>

theorem C3_bucket_order:
  assumes "createFlashSteps C modules isInDfuMode platformId = Inr steps"
    and "dependenciesFirst (\<lambda>a b. dep (spec_moduleInfo a) (spec_moduleInfo b))
           (sortBinariesByDependency C modules)"
  shows "(let platform = find (\<lambda>p. platform_id p = platformId) (PLATFORMS C);
              sortedModules = sortBinariesByDependency C modules;
              bulkModules = spec_bulkModules C platform sortedModules;
              normalModules = spec_normalModules C platform sortedModules;
              assetModules = spec_assetModules C sortedModules
          in steps = (if isInDfuMode then bulkModules @ normalModules @ assetModules
                      else normalModules @ bulkModules @ assetModules)
           \<and> map moduleInfo (filter (\<lambda>s. moduleInfo s \<noteq> None) bulkModules)
               = map (\<lambda>m. Some (spec_moduleInfo m)) (filter (spec_isBulk C platform) sortedModules)
           \<and> map moduleInfo normalModules
               = map (\<lambda>m. Some (spec_moduleInfo m)) (filter (spec_isNormal C platform) sortedModules)
           \<and> map moduleInfo assetModules
               = map (\<lambda>m. Some (spec_moduleInfo m)) (filter (spec_isAsset C) sortedModules)
           \<and> dependenciesFirst (stepDependsOn dep) bulkModules
           \<and> dependenciesFirst (stepDependsOn dep) normalModules
           \<and> dependenciesFirst (stepDependsOn dep) assetModules)"
proof -
  let ?pl = "find (\<lambda>p. platform_id p = platformId) (PLATFORMS C)"
  let ?so = "sortBinariesByDependency C modules"
  have plan: "steps = (if isInDfuMode
      then spec_bulkModules C ?pl ?so @ spec_normalModules C ?pl ?so @ spec_assetModules C ?so
      else spec_normalModules C ?pl ?so @ spec_bulkModules C ?pl ?so @ spec_assetModules C ?so)"
    using createFlashSteps_buckets[OF assms(1)] by (simp add: Let_def)
  have b: "dependenciesFirst (stepDependsOn dep) (spec_bulkModules C ?pl ?so)"
    by (rule dependenciesFirst_bulk[OF assms(2)])
  have n: "dependenciesFirst (stepDependsOn dep) (spec_normalModules C ?pl ?so)"
    unfolding spec_normalModules_def by (rule dependenciesFirst_map_filter[OF assms(2)])
  have a: "dependenciesFirst (stepDependsOn dep) (spec_assetModules C ?so)"
    unfolding spec_assetModules_def by (rule dependenciesFirst_map_filter[OF assms(2)])
  show ?thesis
    unfolding Let_def
    using plan b n a bulk_modules_in_order[of C ?pl ?so] normal_modules_in_order[of C ?pl ?so]
      asset_modules_in_order[of C ?so]
    by blast
qed

lemma example_plan_system:
  "createFlashSteps example_collaborators [example_systemPart, example_userPart] False 32
    = Inr [spec_bulkStep example_collaborators example_systemPart,
           formerUserPartflashStep \<lparr> seg_address = ''0x08000000'', seg_size = 4 \<rparr>,
           spec_bulkStep example_collaborators example_userPart]"
  by (simp add: createFlashSteps_def example_find example_sorter example_plan_systemPart
        example_plan_userPart)

lemma example_sorted:
  "dependenciesFirst (\<lambda>a b. example_dependsOn (spec_moduleInfo a) (spec_moduleInfo b))
     (sortBinariesByDependency example_collaborators [example_systemPart, example_userPart])"
  by (simp add: dependenciesFirst_iff example_dependsOn_def spec_moduleInfo_def example_defs
        example_systemPart_def)

theorem C3_bucket_order_witness:
  "createFlashSteps example_collaborators [example_systemPart, example_userPart] False 32
    = Inr [spec_bulkStep example_collaborators example_systemPart,
           formerUserPartflashStep \<lparr> seg_address = ''0x08000000'', seg_size = 4 \<rparr>,
           spec_bulkStep example_collaborators example_userPart]
   \<and> example_dependsOn (spec_moduleInfo example_userPart) (spec_moduleInfo example_systemPart)
   \<and> dependenciesFirst (\<lambda>a b. example_dependsOn (spec_moduleInfo a) (spec_moduleInfo b))
       [example_systemPart, example_userPart]
   \<and> dependenciesFirst (stepDependsOn example_dependsOn)
       (spec_bulkModules example_collaborators (Some example_platform)
          [example_systemPart, example_userPart])
   \<and> map moduleInfo (filter (\<lambda>s. moduleInfo s \<noteq> None)
         (spec_bulkModules example_collaborators (Some example_platform)
            [example_systemPart, example_userPart]))
      = [Some (spec_moduleInfo example_systemPart), Some (spec_moduleInfo example_userPart)]"
proof -
  have dep: "example_dependsOn (spec_moduleInfo example_userPart) (spec_moduleInfo example_systemPart)"
    by (simp add: example_dependsOn_def spec_moduleInfo_def example_defs example_systemPart_def)
  have bulk: "filter (spec_isBulk example_collaborators (Some example_platform))
      [example_systemPart, example_userPart] = [example_systemPart, example_userPart]"
    by (simp add: spec_isBulk_def spec_isNormal_def spec_isAsset_def spec_moduleType_def
          spec_storageClass_def example_defs example_systemPart_def)
  show ?thesis
    using C3_bucket_order[OF example_plan_system example_sorted] example_plan_system
      example_sorted dep bulk
    by (simp add: Let_def example_collaborators_def example_platform_def)
qed

section \<open>Properties of the module filter\<close>

lemma filterLoop_slots:
  "firmwareModules p = Some slots \<Longrightarrow> list_all (spec_named C) ms \<Longrightarrow>
     filterLoop C (Some p) allowAll acc ms
       = Inr (acc @ filter (\<lambda>m. \<not> spec_drops C slots allowAll m) ms)"
  by (induction ms arbitrary: acc)
     (auto simp: spec_drops_def spec_slot_encrypted_def spec_slot_def spec_named_def Let_def
        split: sum.splits)

lemma filterLoop_named:
  "filterLoop C platform allowAll acc ms = Inr out \<Longrightarrow> list_all (spec_named C) ms"
proof (induction ms arbitrary: acc)
  case Nil
  then show ?case by simp
next
  case (Cons m ms)
  from Cons.prems obtain acc1 where "filterLoop C platform allowAll acc1 ms = Inr out"
    and "spec_named C m"
    by (auto simp: spec_named_def Let_def split: sum.splits option.splits if_splits)
  with Cons.IH show ?case by simp
qed

lemma filterLoop_returns:
  "filterLoop C platform allowAll acc ms = Inr out \<Longrightarrow>
     ms = [] \<or> ((\<exists>p slots. platform = Some p \<and> firmwareModules p = Some slots)
                \<and> list_all (spec_named C) ms)"
  using filterLoop_named[of C platform allowAll acc ms out]
  by (cases ms) (auto split: sum.splits option.splits)

lemma filter_never_encrypted:
  "list_all (\<lambda>m. \<not> spec_slot_encrypted C slots m)
     (filter (\<lambda>m. \<not> spec_drops C slots allowAll m) modules)"
  by (simp add: list_all_iff spec_drops_def)

lemma filterModulesToFlash_slots:
  assumes "spec_slots C platformId = Some slots" and "list_all (spec_named C) modules"
  shows "filterModulesToFlash C modules platformId allowAll
    = Inr (filter (\<lambda>m. \<not> spec_drops C slots allowAll m) modules)"
proof -
  from assms(1) obtain p where
    "find (\<lambda>p. platform_id p = platformId) (PLATFORMS C) = Some p" "firmwareModules p = Some slots"
    by (auto simp: spec_slots_def split: option.splits)
  with assms(2) show ?thesis
    by (simp add: filterModulesToFlash_def filterLoop_slots)
qed

lemma filterModulesToFlash_returns:
  assumes "filterModulesToFlash C modules platformId allowAll = Inr out"
  shows "case spec_slots C platformId of
           Some slots \<Rightarrow> out = filter (\<lambda>m. \<not> spec_drops C slots allowAll m) modules
                        \<and> list_all (\<lambda>m. \<not> spec_slot_encrypted C slots m) out
         | None \<Rightarrow> modules = [] \<and> out = []"
proof (cases "spec_slots C platformId")
  case None
  from assms have run: "filterLoop C (find (\<lambda>p. platform_id p = platformId) (PLATFORMS C))
      allowAll [] modules = Inr out"
    by (simp add: filterModulesToFlash_def)
  from filterLoop_returns[OF run] None have "modules = []"
    by (auto simp: spec_slots_def)
  with run None show ?thesis by simp
next
  case (Some slots)
  from assms have run: "filterLoop C (find (\<lambda>p. platform_id p = platformId) (PLATFORMS C))
      allowAll [] modules = Inr out"
    by (simp add: filterModulesToFlash_def)
  have named: "list_all (spec_named C) modules"
    using filterLoop_returns[OF run] by auto
  from filterModulesToFlash_slots[OF Some named, of allowAll] assms
  have "out = filter (\<lambda>m. \<not> spec_drops C slots allowAll m) modules" by simp
  with Some show ?thesis using filter_never_encrypted[of C slots allowAll modules] by simp
qed

text \<open>
  Claim C4, as the code has it. The filter returns on every input whose platform id is in
  the platform table with a list of slots and whose modules all have a type with a name, and
  on the empty input. Whenever it returns, it returns exactly the modules that satisfy none
  of: the platform slot is marked encrypted; the type is \<open>RADIO_STACK\<close> and override-all is
  off; the type is \<open>NCP_FIRMWARE\<close> and override-all is off; and no returned module has an
  encrypted slot. Empty input yields empty output for every platform id.
\<close>

theorem C4_filter:
  "(\<forall>slots. spec_slots C platformId = Some slots \<and> list_all (spec_named C) modules
       \<longrightarrow> filterModulesToFlash C modules platformId allowAll
             = Inr (filter (\<lambda>m. \<not> spec_drops C slots allowAll m) modules))
   \<and> (\<forall>out. filterModulesToFlash C modules platformId allowAll = Inr out
       \<longrightarrow> (case spec_slots C platformId of
              Some slots \<Rightarrow> out = filter (\<lambda>m. \<not> spec_drops C slots allowAll m) modules
                           \<and> list_all (\<lambda>m. \<not> spec_slot_encrypted C slots m) out
            | None \<Rightarrow> modules = [] \<and> out = []))
   \<and> filterModulesToFlash C [] platformId allowAll = Inr []"
proof -
  have "filterModulesToFlash C [] platformId allowAll = Inr []"
    by (simp add: filterModulesToFlash_def)
  then show ?thesis
    using filterModulesToFlash_slots[of C platformId _ modules allowAll]
      filterModulesToFlash_returns[of C modules platformId allowAll]
    by blast
qed

lemma example_filter:
  "spec_slots example_collaborators 32 = Some example_slots"
  "list_all (spec_named example_collaborators) [example_ncp, example_userPart, example_bootloader]"
  "filter (\<lambda>m. \<not> spec_drops example_collaborators example_slots True m)
      [example_ncp, example_userPart, example_bootloader] = [example_userPart, example_bootloader]"
  "spec_slot_encrypted example_collaborators example_slots example_ncp"
proof -
  show "spec_slots example_collaborators 32 = Some example_slots"
    by (simp add: spec_slots_def example_find) (simp add: example_platform_def)
  show "list_all (spec_named example_collaborators) [example_ncp, example_userPart, example_bootloader]"
    by (simp add: spec_named_def example_defs)
  show "filter (\<lambda>m. \<not> spec_drops example_collaborators example_slots True m)
      [example_ncp, example_userPart, example_bootloader] = [example_userPart, example_bootloader]"
    by (simp add: spec_drops_def spec_slot_encrypted_def spec_slot_def example_defs)
  show "spec_slot_encrypted example_collaborators example_slots example_ncp"
    by (simp add: spec_slot_encrypted_def spec_slot_def example_defs)
qed

theorem C4_filter_witness:
  "spec_slots example_collaborators 32 = Some example_slots
   \<and> list_all (spec_named example_collaborators) [example_ncp, example_userPart, example_bootloader]
   \<and> filterModulesToFlash example_collaborators [example_ncp, example_userPart, example_bootloader] 32 True
     = Inr [example_userPart, example_bootloader]
   \<and> list_all (\<lambda>m. \<not> spec_slot_encrypted example_collaborators example_slots m)
       [example_userPart, example_bootloader]
   \<and> spec_slot_encrypted example_collaborators example_slots example_ncp
   \<and> filterModulesToFlash example_collaborators [] 32 False = Inr []"
proof -
  note inst = C4_filter[where platformId = 32 and C = example_collaborators and allowAll = True
        and modules = "[example_ncp, example_userPart, example_bootloader]"]
  have run: "filterModulesToFlash example_collaborators
      [example_ncp, example_userPart, example_bootloader] 32 True
     = Inr [example_userPart, example_bootloader]"
    using inst[THEN conjunct1, rule_format, of example_slots] example_filter by simp
  have enc: "list_all (\<lambda>m. \<not> spec_slot_encrypted example_collaborators example_slots m)
       [example_userPart, example_bootloader]"
    using inst[THEN conjunct2, THEN conjunct1, rule_format, OF run] example_filter(1) by simp
  have empty: "filterModulesToFlash example_collaborators [] 32 False = Inr []"
    using C4_filter[where platformId = 32 and C = example_collaborators and allowAll = False
        and modules = "[]"] by blast
  show ?thesis using run enc empty example_filter by simp
qed

text \<open>The error cases: a platform id that is not in the table, a platform without a list
  of slots, and a module whose type has no name.\<close>

theorem C4_filter_counterexample:
  "filterModulesToFlash example_collaborators [example_userPart] 999 False = Inl TypeError
   \<and> filterModulesToFlash
        (example_collaborators \<lparr> PLATFORMS := [example_platform \<lparr> firmwareModules := None \<rparr>] \<rparr>)
        [example_userPart] 32 False = Inl TypeError
   \<and> filterModulesToFlash example_collaborators [example_module NONE 0 0 ''x.bin'' []] 32 False
       = Inl (Rejected ''unknown module type'')"
  by (simp add: filterModulesToFlash_def example_defs Let_def)

section \<open>Properties of the module validator\<close>


lemmas async_defs = ret_def throw_def lift_def bind_def tryCatch_def perform_def

lemmas example_env_defs =
  example_environment_def example_host_def example_usb_def example_failingUsb_def
  example_device_def example_badCrc_def example_otherPlatform_def

text \<open>
  Every run of \<^verbatim>\<open>flashLocal\<close> makes one call, \<^verbatim>\<open>getOneUsbDevice\<close>, and ends in an
  error: if the call returns a device and the platform has a name, the error is the
  TypeError of \<^verbatim>\<open>validateDFUSupport\<close>.
\<close>

lemma flashLocal_run:
  "snd (snd (flashLocal X files applicationOnly target (w, calls)))
     = calls @ [GetOneUsbDevice (fst (snd (analyzeFiles (env_host X) files)))]
   \<and> (\<exists>e. fst (flashLocal X files applicationOnly target (w, calls)) = Inl e)"
  by (auto simp: flashLocal_def validateDFUSupport_def Let_def async_defs
        split: prod.splits sum.splits)






section \<open>Properties of the base-firmware resolution\<close>

lemma pickApplicationBinary_spec:
  "pickApplicationBinary K modules = (spec_application modules, spec_requiredVersion K modules)"
  by (induction modules)
     (simp_all add: spec_application_def spec_requiredVersion_def spec_lookup_def Let_def)

lemma systemPartBinaries_spec:
  "(length (filter (\<lambda>m. moduleFunction (prefixInfo m) \<in> set [SYSTEM_PART, BOOTLOADER]) modules) \<noteq> 0)
     = spec_hasSystemOrBootloader modules"
  by (induction modules) (auto simp: spec_hasSystemOrBootloader_def)

lemma resolution_system:
  "spec_hasSystemOrBootloader modules \<Longrightarrow>
     getDeviceOsBinaries K skipDeviceOSFlash target modules currentDeviceOsVersion platformId
       applicationOnly = Inr []"
  unfolding getDeviceOsBinaries_def pickApplicationBinary_spec Let_def systemPartBinaries_spec
  by simp

lemma resolution_early:
  "spec_decidedEarly skipDeviceOSFlash target modules applicationOnly \<Longrightarrow>
     getDeviceOsBinaries K skipDeviceOSFlash target modules currentDeviceOsVersion platformId
       applicationOnly
     = spec_fetch K platformId
         (spec_resolution K skipDeviceOSFlash target modules currentDeviceOsVersion applicationOnly)"
  unfolding getDeviceOsBinaries_def pickApplicationBinary_spec Let_def systemPartBinaries_spec
  by (auto simp: spec_decidedEarly_def spec_resolution_def spec_fetch_def spec_fetchVersion_def
        truthy_def split: option.splits)

lemma resolution_compared:
  "spec_comparable K currentDeviceOsVersion (spec_requiredVersion K modules) \<Longrightarrow>
     getDeviceOsBinaries K skipDeviceOSFlash target modules currentDeviceOsVersion platformId
       applicationOnly
     = spec_fetch K platformId
         (spec_resolution K skipDeviceOSFlash target modules currentDeviceOsVersion applicationOnly)"
  unfolding getDeviceOsBinaries_def pickApplicationBinary_spec Let_def systemPartBinaries_spec
  by (auto simp: spec_comparable_def spec_comparison_def spec_resolution_def spec_fetch_def
        spec_fetchVersion_def truthy_def spec_strictlyOlder_def
        split: option.splits sum.splits if_splits)

text \<open>When none of the rules 1 to 5 decides and the comparison of rule 6 throws, so does
  the resolution.\<close>

lemma resolution_throws:
  assumes "\<not> spec_decidedEarly skipDeviceOSFlash target modules applicationOnly"
    and "spec_comparison K currentDeviceOsVersion (spec_requiredVersion K modules) = Some (Inl e)"
  shows "getDeviceOsBinaries K skipDeviceOSFlash target modules currentDeviceOsVersion platformId
       applicationOnly = Inl e"
  using assms
  unfolding getDeviceOsBinaries_def pickApplicationBinary_spec Let_def systemPartBinaries_spec
  by (auto simp: spec_decidedEarly_def spec_comparison_def truthy_def
        split: option.splits sum.splits if_splits)

text \<open>
  Claim C6, as the code has it. On every input on which one of the rules 1 to 5 decides, or
  the comparison of rule 6 is not made or returns, base-firmware resolution is the
  first-match-wins rule list of the spec: what \<^verbatim>\<open>_getDeviceOsBinaries\<close> returns is what
  fetching the decision of \<open>spec_resolution\<close> returns. In particular, with a system part or
  a boot loader in the module set it fetches nothing, whatever the versions and flags are.
\<close>

theorem C6_resolution_order:
  "(spec_decidedEarly skipDeviceOSFlash target modules applicationOnly
      \<or> spec_comparable K currentDeviceOsVersion (spec_requiredVersion K modules)
    \<longrightarrow> getDeviceOsBinaries K skipDeviceOSFlash target modules currentDeviceOsVersion platformId
          applicationOnly
        = spec_fetch K platformId
            (spec_resolution K skipDeviceOSFlash target modules currentDeviceOsVersion
               applicationOnly))
   \<and> (spec_hasSystemOrBootloader modules \<longrightarrow>
        getDeviceOsBinaries K skipDeviceOSFlash target modules currentDeviceOsVersion platformId
          applicationOnly = Inr [])"
  using resolution_early[of skipDeviceOSFlash target modules applicationOnly K
      currentDeviceOsVersion platformId]
    resolution_compared[of K currentDeviceOsVersion modules skipDeviceOSFlash target platformId
      applicationOnly]
    resolution_system[of modules K skipDeviceOSFlash target currentDeviceOsVersion platformId
      applicationOnly]
  by blast

lemmas example_cloud_defs =
  example_cloud_def example_lt_def example_versions_def example_oldUserPart_def
  example_systemPart_def

lemma example_required:
  "spec_requiredVersion example_cloud [example_userPart] = Some ''5.3.0''"
  "spec_application [example_userPart] = Some example_userPart"
  "\<not> spec_hasSystemOrBootloader [example_userPart]"
  by (simp_all add: spec_requiredVersion_def spec_application_def spec_lookup_def
        spec_hasSystemOrBootloader_def example_defs example_cloud_def)

lemma example_comparisons:
  "semver_lt example_cloud ''5.0.0'' ''5.3.0'' = Inr True"
  "semver_lt example_cloud ''garbage'' ''5.3.0'' = Inl TypeError"
  by (simp_all add: example_cloud_def example_lt_def example_versions_def)

theorem C6_resolution_order_witness:
  "spec_comparable example_cloud (Some ''5.0.0'') (spec_requiredVersion example_cloud [example_userPart])
   \<and> getDeviceOsBinaries example_cloud False None [example_userPart] (Some ''5.0.0'') 32 False
     = Inr [''5.3.0/system-part1.bin'']
   \<and> spec_resolution example_cloud False None [example_userPart] (Some ''5.0.0'') False
     = FetchVersion ''5.3.0'' False
   \<and> spec_hasSystemOrBootloader [example_systemPart, example_userPart]
   \<and> getDeviceOsBinaries example_cloud False None [example_systemPart, example_userPart]
        (Some ''5.0.0'') 32 False = Inr []"
proof -
  have c: "spec_comparable example_cloud (Some ''5.0.0'')
      (spec_requiredVersion example_cloud [example_userPart])"
    by (simp add: spec_comparable_def spec_comparison_def example_required example_comparisons)
  have r: "spec_resolution example_cloud False None [example_userPart] (Some ''5.0.0'') False
     = FetchVersion ''5.3.0'' False"
    by (simp add: spec_resolution_def spec_strictlyOlder_def spec_comparison_def
          spec_fetchVersion_def truthy_def example_required example_comparisons)
  have s: "spec_hasSystemOrBootloader [example_systemPart, example_userPart]"
    by (simp add: spec_hasSystemOrBootloader_def example_defs example_systemPart_def)
  have f: "spec_fetch example_cloud 32 (FetchVersion ''5.3.0'' False) = Inr [''5.3.0/system-part1.bin'']"
    by (simp add: spec_fetch_def example_cloud_def)
  have u: "getDeviceOsBinaries example_cloud False None [example_userPart] (Some ''5.0.0'') 32 False
     = Inr [''5.3.0/system-part1.bin'']"
    using C6_resolution_order[where K = example_cloud and skipDeviceOSFlash = False
        and target = None and modules = "[example_userPart]"
        and currentDeviceOsVersion = "Some ''5.0.0''" and platformId = 32
        and applicationOnly = False] c r f
    by simp
  have n: "getDeviceOsBinaries example_cloud False None [example_systemPart, example_userPart]
        (Some ''5.0.0'') 32 False = Inr []"
    using C6_resolution_order[where K = example_cloud and skipDeviceOSFlash = False
        and target = None and modules = "[example_systemPart, example_userPart]"
        and currentDeviceOsVersion = "Some ''5.0.0''" and platformId = 32
        and applicationOnly = False] s
    by blast
  show ?thesis using c u n r s by simp
qed

text \<open>An installed version that is not a version: none of the rules 1 to 5 decides, the
  rule list fetches nothing, and the resolution ends in the TypeError of the comparison.\<close>

theorem C6_resolution_order_counterexample:
  "semver_lt example_cloud ''garbage'' ''5.3.0'' = Inl TypeError
   \<and> spec_fetch example_cloud 32
        (spec_resolution example_cloud False None [example_userPart] (Some ''garbage'') False)
       = Inr []
   \<and> getDeviceOsBinaries example_cloud False None [example_userPart] (Some ''garbage'') 32 False
       = Inl TypeError"
proof -
  have r: "spec_resolution example_cloud False None [example_userPart] (Some ''garbage'') False
     = FetchNothing"
    by (simp add: spec_resolution_def spec_strictlyOlder_def spec_comparison_def
          spec_fetchVersion_def truthy_def example_required example_comparisons)
  have g: "getDeviceOsBinaries example_cloud False None [example_userPart] (Some ''garbage'') 32 False
       = Inl TypeError"
    by (rule resolution_throws)
       (simp_all add: spec_decidedEarly_def spec_comparison_def truthy_def example_required
          example_comparisons)
  show ?thesis using r g example_comparisons by (simp add: spec_fetch_def)
qed

text \<open>
  Claim C7, as the code has it. When the cloud lookup of the application's required version
  fails, the error is caught and the version is treated as absent; resolution then fetches
  nothing, except that an explicit target version is still fetched as by rule 4 (when no
  system part or boot loader is in the module set and application-only is off). The failure
  of the lookup itself is never what resolution returns.
\<close>

theorem C7_lookup_failure:
  assumes "spec_application modules = Some app" and "spec_lookup K app = Inl e"
  shows "pickApplicationBinary K modules = (Some app, None)
    \<and> getDeviceOsBinaries K skipDeviceOSFlash target modules currentDeviceOsVersion platformId
        applicationOnly
       = (case target of
            None \<Rightarrow> Inr []
          | Some t \<Rightarrow>
              if t \<noteq> [] \<and> \<not> spec_hasSystemOrBootloader modules \<and> \<not> applicationOnly
              then downloadDeviceOsVersionBinaries K platformId t True
              else Inr [])"
proof -
  have req: "spec_requiredVersion K modules = None"
    using assms by (simp add: spec_requiredVersion_def)
  show ?thesis
    unfolding getDeviceOsBinaries_def pickApplicationBinary_spec Let_def systemPartBinaries_spec
    using assms(1) req by (simp split: option.splits)
qed

theorem C7_lookup_failure_witness:
  "spec_application [example_oldUserPart] = Some example_oldUserPart
   \<and> spec_lookup example_cloud example_oldUserPart = Inl (Rejected ''404'')
   \<and> pickApplicationBinary example_cloud [example_oldUserPart] = (Some example_oldUserPart, None)
   \<and> getDeviceOsBinaries example_cloud False None [example_oldUserPart] (Some ''5.0.0'') 32 False
       = Inr []"
proof -
  have a: "spec_application [example_oldUserPart] = Some example_oldUserPart"
    by (simp add: spec_application_def example_defs example_cloud_defs)
  have l: "spec_lookup example_cloud example_oldUserPart = Inl (Rejected ''404'')"
    by (simp add: spec_lookup_def example_defs example_cloud_defs)
  show ?thesis
    using C7_lookup_failure[OF a l, of False None "Some ''5.0.0''" 32 False] a l by simp
qed

theorem C7_lookup_failure_counterexample:
  "spec_lookup example_cloud example_oldUserPart = Inl (Rejected ''404'')
   \<and> getDeviceOsBinaries example_cloud False (Some ''4.0.0'') [example_oldUserPart]
        (Some ''5.0.0'') 32 False
       = Inr [''4.0.0/system-part1.bin'']"
  by (simp add: getDeviceOsBinaries_def spec_lookup_def example_defs example_cloud_defs Let_def)

section \<open>The device handle and the errors of the flash commands\<close>

text \<open>
  \<^verbatim>\<open>flashFiles\<close> by itself closes the handle it holds at its end once if that handle is
  open, and not at all otherwise; the steps it runs close nothing.
\<close>

lemma ret_closes: "filter isClose (snd (snd (ret a s))) = filter isClose (snd s)"
  by (simp add: ret_def)

lemma perform_closes:
  "filter isClose (snd (snd (perform c operation s))) = filter isClose (snd s) @ filter isClose [c]"
  by (simp add: perform_def split: prod.splits)

lemma bind_closes:
  assumes "\<And>s. filter isClose (snd (snd (m s))) = filter isClose (snd s)"
    and "\<And>a s. filter isClose (snd (snd (f a s))) = filter isClose (snd s)"
  shows "filter isClose (snd (snd (bind m f s))) = filter isClose (snd s)"
proof -
  obtain r s1 where run: "m s = (r, s1)" by (cases "m s") blast
  from assms(1)[of s] run have one: "filter isClose (snd s1) = filter isClose (snd s)" by simp
  show ?thesis
  proof (cases r)
    case (Inl e)
    with run one show ?thesis by (simp add: bind_def)
  next
    case (Inr a)
    with run one assms(2)[of a s1] show ?thesis by (simp add: bind_def)
  qed
qed

lemma tryCatch_closes:
  assumes "\<And>s. filter isClose (snd (snd (m s))) = filter isClose (snd s)"
    and "\<And>e s. filter isClose (snd (snd (handler e s))) = filter isClose (snd s)"
  shows "filter isClose (snd (snd (tryCatch m handler s))) = filter isClose (snd s)"
proof -
  obtain r s1 where run: "m s = (r, s1)" by (cases "m s") blast
  from assms(1)[of s] run have one: "filter isClose (snd s1) = filter isClose (snd s)" by simp
  show ?thesis
  proof (cases r)
    case (Inl e)
    with run one assms(2)[of e s1] show ?thesis by (simp add: tryCatch_def)
  next
    case (Inr a)
    with run one show ?thesis by (simp add: tryCatch_def)
  qed
qed

lemma flashDeviceInNormalMode_closes:
  "filter isClose (snd (snd (flashDeviceInNormalMode U device bytes s))) = filter isClose (snd s)"
  unfolding flashDeviceInNormalMode_def
  by (intro bind_closes tryCatch_closes) (simp_all add: perform_closes ret_closes)

lemma flashDeviceInDfuMode_closes:
  "filter isClose (snd (snd (flashDeviceInDfuMode U device bytes altSetting startAddr s)))
     = filter isClose (snd s)"
  unfolding flashDeviceInDfuMode_def
  by (intro bind_closes) (simp_all add: perform_closes ret_closes)

lemma flashLoop_closes:
  "filter isClose (snd (snd (flashLoop U device flashSteps s))) = filter isClose (snd s)"
proof (induction flashSteps arbitrary: device s)
  case Nil
  show ?case by simp
next
  case (Cons st rest)
  let ?m = "if flashMode st = normal
           then flashDeviceInNormalMode U device (data st)
           else flashDeviceInDfuMode U device (data st) 0 (address st)"
  obtain r s1 where run: "?m s = (r, s1)" by (cases "?m s") blast
  have one: "filter isClose (snd s1) = filter isClose (snd s)"
    using run flashDeviceInNormalMode_closes[of U device "data st" s]
      flashDeviceInDfuMode_closes[of U device "data st" 0 "address st" s]
    by (simp split: if_splits)
  show ?case
  proof (cases r)
    case (Inl e)
    with run one show ?thesis by simp
  next
    case (Inr device1)
    with run have "flashLoop U device (st # rest) s = flashLoop U device1 rest s1" by simp
    with Cons.IH[of device1 s1] one show ?thesis by simp
  qed
qed

lemma finally_closes:
  "filter isClose (snd (snd (
      bind (if resetAfterFlash
            then tryCatch (perform (Reset held) (reset U held)) (\<lambda>error. ret ())
            else ret ()) (\<lambda>_. perform (Close held) (close U held)) s)))
     = filter isClose (snd s) @ [Close held]"
proof -
  let ?m = "if resetAfterFlash
            then tryCatch (perform (Reset held) (reset U held)) (\<lambda>error. ret ())
            else ret ()"
  obtain r s1 where run: "?m s = (r, s1)" by (cases "?m s") blast
  have quiet: "filter isClose (snd (snd (?m s))) = filter isClose (snd s)"
    by (cases resetAfterFlash) (simp_all add: tryCatch_closes perform_closes ret_closes)
  have r: "r = Inr ()"
    using run by (auto simp: tryCatch_def ret_def perform_def split: if_splits prod.splits sum.splits)
  show ?thesis
    using run quiet r perform_closes[of "Close held" "close U held" s1]
    by (simp add: bind_def)
qed

lemma flashFiles_closes:
  "filter isClose (snd (snd (flashFiles U device flashSteps resetAfterFlash s)))
     = filter isClose (snd s)
       @ (case flashLoop U device flashSteps s of
            ((outcome, held), reached) \<Rightarrow>
              if dev_isOpen U (fst reached) held then [Close held] else [])"
proof -
  obtain outcome held reached where
    run: "flashLoop U device flashSteps s = ((outcome, held), reached)"
    by (cases "flashLoop U device flashSteps s") auto
  have before: "filter isClose (snd reached) = filter isClose (snd s)"
    using flashLoop_closes[of U device flashSteps s] run by simp
  let ?fin = "bind (if resetAfterFlash
            then tryCatch (perform (Reset held) (reset U held)) (\<lambda>error. ret ())
            else ret ()) (\<lambda>_. perform (Close held) (close U held))"
  show ?thesis
  proof (cases "dev_isOpen U (fst reached) held")
    case True
    obtain r s2 where fin: "?fin reached = (r, s2)" by (cases "?fin reached") blast
    have "filter isClose (snd s2) = filter isClose (snd s) @ [Close held]"
      using finally_closes[of resetAfterFlash held U reached] fin before by simp
    with True fin show ?thesis
      by (simp add: flashFiles_def run split: sum.splits option.splits)
  next
    case False
    with before show ?thesis
      by (simp add: flashFiles_def run ret_def split: option.splits)
  qed
qed

lemma flashOverUsb_zip:
  "getFilenameExt (env_host X) binary = ''.zip'' \<Longrightarrow> flashOverUsb X binary factory s = (Inr (), s)"
  by (simp add: flashOverUsb_def Let_def async_defs)

lemma tryCatch_Inl:
  assumes "fst (tryCatch m handler s) = Inl e"
  shows "\<exists>e1 s1. fst (handler e1 s1) = Inl e"
proof -
  obtain r s1 where run: "m s = (r, s1)" by (cases "m s") blast
  show ?thesis
  proof (cases r)
    case (Inl e1)
    with run assms have "fst (handler e1 s1) = Inl e" by (simp add: tryCatch_def)
    then show ?thesis by blast
  next
    case (Inr a)
    with run assms show ?thesis by (simp add: tryCatch_def)
  qed
qed

lemma fst_perform: "fst (perform c operation s) = fst (operation (fst s))"
  by (simp add: perform_def split: prod.splits)

text \<open>The only error that leaves \<^verbatim>\<open>flashOverUsb\<close> is one of \<^verbatim>\<open>close\<close> in its
  \<^verbatim>\<open>catch\<close> block.\<close>

lemma flashOverUsb_swallows:
  assumes "fst (flashOverUsb X binary factory s) = Inl e"
  shows "\<exists>device w. fst (close (env_usb X) device w) = Inl e"
proof (cases "getFilenameExt (env_host X) binary = ''.zip''")
  case True
  with assms show ?thesis by (simp add: flashOverUsb_zip)
next
  case False
  obtain r s1 where got: "perform (GetOneUsbDevice None) (getOneUsbDevice (env_usb X) None) s = (r, s1)"
    by (cases "perform (GetOneUsbDevice None) (getOneUsbDevice (env_usb X) None) s") blast
  show ?thesis
  proof (cases r)
    case (Inl e1)
    with assms False got show ?thesis by (simp add: flashOverUsb_def Let_def)
  next
    case (Inr device)
    with assms False got obtain m where
      "fst (tryCatch m (\<lambda>error. perform (Close device) (close (env_usb X) device)) s1) = Inl e"
      by (auto simp: flashOverUsb_def Let_def)
    from tryCatch_Inl[OF this] obtain s2 where
      "fst (perform (Close device) (close (env_usb X) device) s2) = Inl e"
      by blast
    then show ?thesis unfolding fst_perform by blast
  qed
qed

text \<open>A run of \<^verbatim>\<open>flashOverUsb\<close> that obtains a device and learns the name of its platform
  ends in the \<^verbatim>\<open>catch\<close> block, with the result of \<^verbatim>\<open>close\<close>.\<close>

lemma flashOverUsb_caught:
  assumes "getFilenameExt (env_host X) binary \<noteq> ''.zip''"
    and "getOneUsbDevice (env_usb X) None w = (Inr device, w1)"
  shows "flashOverUsb X binary factory (w, calls)
    = perform (Close device) (close (env_usb X) device) (w1, calls @ [GetOneUsbDevice None])"
  using assms
  by (auto simp: flashOverUsb_def validateDFUSupport_def Let_def async_defs
        split: prod.splits sum.splits)

lemma example_validations:
  "validateModulesForPlatform [example_userPart] 32 ''p2'' = Inr ()"
  "validateModulesForPlatform [example_badCrc] 32 ''p2'' = Inl (CrcCheckFailed ''bad.bin'')"
  "validateModulesForPlatform [example_otherPlatform] 32 ''p2''
     = Inl (NotCompatible ''photon.bin'' ''p2'')"
  by (simp_all add: example_defs example_badCrc_def example_otherPlatform_def)

lemma example_devices:
  "getFilenameExt (env_host example_environment) ''bundle.zip'' = ''.zip''"
  "getFilenameExt (env_host example_environment) ''app.bin'' \<noteq> ''.zip''"
  "getFilenameExt (env_host example_environment) ''bad.bin'' \<noteq> ''.zip''"
  "getFilenameExt (env_host example_environment) ''photon.bin'' \<noteq> ''.zip''"
  "getFilenameExt (env_host example_environment) ''garbage'' \<noteq> ''.zip''"
  "getOneUsbDevice (env_usb example_environment) idOrName w = (Inr example_device, w)"
  "getOneUsbDevice example_failingUsb idOrName w = (Inr example_device, w)"
  "close (env_usb example_environment) d w = (Inr (), d # w)"
  "close example_failingUsb d w = (Inr (), d # w)"
  "env_host (example_environment \<lparr> env_usb := example_failingUsb \<rparr>) = env_host example_environment"
  "env_usb (example_environment \<lparr> env_usb := example_failingUsb \<rparr>) = example_failingUsb"
  by (simp_all add: example_environment_def example_host_def example_usb_def
        example_failingUsb_def)

lemma example_local:
  "flashLocal example_environment [''app.bin''] False None ([], [])
     = (Inl TypeError, ([], [GetOneUsbDevice None]))"
  by (simp add: flashLocal_def validateDFUSupport_def analyzeFiles_def Let_def async_defs
        example_env_defs)

text \<open>
  Claim C8 on \<^verbatim>\<open>flashLocal\<close>. No run of \<^verbatim>\<open>flashLocal\<close> calls \<^verbatim>\<open>close\<close>: the one
  call it makes is \<^verbatim>\<open>getOneUsbDevice\<close>, and the error that ends it leaves the function
  at once. On a file that parses and validates, with a device connected, the handle is
  obtained and stays open. \<^verbatim>\<open>flashOverUsb\<close> on the same file ends in the same error,
  and closes the handle once in its \<^verbatim>\<open>catch\<close> block.
\<close>

theorem C8_close_not_once:
  "snd (snd (flashLocal X files applicationOnly target (w, calls)))
     = calls @ [GetOneUsbDevice (fst (snd (analyzeFiles (env_host X) files)))]
   \<and> getOneUsbDevice example_usb None [] = (Inr example_device, [])
   \<and> flashLocal example_environment [''app.bin''] False None ([], [])
       = (Inl TypeError, ([], [GetOneUsbDevice None]))
   \<and> filter (\<lambda>c. c = Close example_device)
        (snd (snd (flashLocal example_environment [''app.bin''] False None ([], [])))) = []
   \<and> dev_isOpen example_usb
        (fst (snd (flashLocal example_environment [''app.bin''] False None ([], []))))
        example_device
   \<and> snd (snd (flashOverUsb example_environment ''app.bin'' False ([], [])))
       = [GetOneUsbDevice None, Close example_device]"
proof -
  have l: "snd (snd (flashLocal X files applicationOnly target (w, calls)))
     = calls @ [GetOneUsbDevice (fst (snd (analyzeFiles (env_host X) files)))]"
    using flashLocal_run[of X files applicationOnly target w calls] by simp
  have g: "getOneUsbDevice example_usb None [] = (Inr example_device, [])"
    by (simp add: example_usb_def)
  have o: "dev_isOpen example_usb [] example_device"
    by (simp add: example_usb_def)
  have u: "snd (snd (flashOverUsb example_environment ''app.bin'' False ([], [])))
       = [GetOneUsbDevice None, Close example_device]"
    using flashOverUsb_caught[where X = example_environment and binary = "''app.bin''"
        and w = "[]" and device = example_device and factory = False and calls = "[]"]
    by (simp add: perform_def example_devices)
  show ?thesis using l g o u by (simp add: example_local)
qed

text \<open>
  Claim C9 on \<^verbatim>\<open>flashOverUsb\<close>. Its \<^verbatim>\<open>catch\<close> block does not rethrow, so it returns
  normally whatever failed: the error it throws itself for a zipped bundle, and the error
  that ends the run on a file that does not parse, on a checksum that does not validate, on
  a module of another platform, and on a device whose DFU write fails.
\<close>

theorem C9_errors_swallowed:
  "flashOverUsb example_environment ''bundle.zip'' False ([], []) = (Inr (), ([], []))
   \<and> parseFile example_host ''garbage'' = Inl (Rejected ''cannot parse'')
   \<and> fst (flashOverUsb example_environment ''garbage'' False ([], [])) = Inr ()
   \<and> validateModulesForPlatform [example_badCrc] 32 ''p2'' = Inl (CrcCheckFailed ''bad.bin'')
   \<and> fst (flashOverUsb example_environment ''bad.bin'' False ([], [])) = Inr ()
   \<and> validateModulesForPlatform [example_otherPlatform] 32 ''p2''
       = Inl (NotCompatible ''photon.bin'' ''p2'')
   \<and> fst (flashOverUsb example_environment ''photon.bin'' False ([], [])) = Inr ()
   \<and> fst (writeOverDfu example_failingUsb example_device [] 0 None [])
       = Inl (Rejected ''write failed'')
   \<and> fst (flashOverUsb (example_environment \<lparr> env_usb := example_failingUsb \<rparr>)
            ''app.bin'' False ([], [])) = Inr ()"
proof -
  have zip: "flashOverUsb example_environment ''bundle.zip'' False ([], []) = (Inr (), ([], []))"
    by (rule flashOverUsb_zip) (rule example_devices)
  have run: "fst (flashOverUsb example_environment binary False ([], [])) = Inr ()"
    if "getFilenameExt (env_host example_environment) binary \<noteq> ''.zip''" for binary
    using that flashOverUsb_caught[where X = example_environment and binary = binary
        and w = "[]" and device = example_device and factory = False and calls = "[]"]
    by (simp add: perform_def example_devices)
  have failing: "fst (flashOverUsb (example_environment \<lparr> env_usb := example_failingUsb \<rparr>)
            ''app.bin'' False ([], [])) = Inr ()"
    using flashOverUsb_caught[where X = "example_environment \<lparr> env_usb := example_failingUsb \<rparr>"
        and binary = "''app.bin''" and w = "[]" and device = example_device and factory = False
        and calls = "[]"]
    by (simp add: perform_def example_devices)
  have parse: "parseFile example_host ''garbage'' = Inl (Rejected ''cannot parse'')"
    by (simp add: example_host_def)
  have wr: "fst (writeOverDfu example_failingUsb example_device [] 0 None [])
       = Inl (Rejected ''write failed'')"
    by (simp add: example_failingUsb_def example_usb_def)
  show ?thesis
    using zip parse wr failing run[OF example_devices(3)] run[OF example_devices(4)]
      run[OF example_devices(5)] example_validations(2,3)
    by simp
qed

section \<open>Properties of the flash progress\<close>

lemma erased_clamped:
  assumes "isInteractive u" and "step st = Some current"
    and "0 \<le> eraseSize st" and "eraseSize st \<le> int (length (data current))" and "0 \<le> bytes"
    and "progress flashSteps u (Erased bytes) st = (r, st1)"
  shows "r = None \<and> step st1 = Some current
    \<and> eraseSize st \<le> eraseSize st1 \<and> eraseSize st1 \<le> int (length (data current))
    \<and> eraseSize st1 - eraseSize st \<le> bytes
    \<and> progressBar st1
        = map_option (\<lambda>b. b \<lparr> bar_value := bar_value b
                                  + (eraseSize st1 - eraseSize st) * flashMultiplier st \<rparr>)
            (progressBar st)"
  using assms by (auto simp: progress_def bar_increment_def split: if_splits)

text \<open>
  What holds of the clamp: once the handler has found the step that is being written, which
  it does when no two steps share a name, a run of erase events never reports more than the
  payload of that step, and the bar advances by what was reported.
\<close>

lemma find_by_distinct_name:
  "distinct (map name flashSteps) \<Longrightarrow> s \<in> set flashSteps
    \<Longrightarrow> find (\<lambda>step. name step = name s) flashSteps = Some s"
proof (induction flashSteps)
  case Nil
  then show ?case by simp
next
  case (Cons a rest)
  show ?case
  proof (cases "a = s")
    case True
    then show ?thesis by simp
  next
    case False
    with Cons.prems have "s \<in> set rest" and "name a \<noteq> name s" by auto
    with Cons show ?thesis by simp
  qed
qed

lemma flashFile_found:
  assumes "find (\<lambda>step. name step = file) flashSteps = Some s"
    and "progress flashSteps u (FlashFile file) st = (r, st1)"
  shows "r = None \<and> step st1 = Some s \<and> eraseSize st1 = 0
    \<and> flashMultiplier st1 = (if flashMode s = normal then NORMAL_MULTIPLIER else 1)
    \<and> map_option bar_value (progressBar st1) = map_option bar_value (progressBar st)"
  using assms
  by (auto simp: progress_def announce_def bar_update_def Let_def option.map_comp comp_def
        split: if_splits)

lemma erased_run:
  assumes "isInteractive u" and "step st = Some current"
    and "0 \<le> eraseSize st" and "eraseSize st \<le> int (length (data current))"
    and "\<forall>b\<in>set bs. 0 \<le> b"
  shows "\<exists>st1. progressAll flashSteps u (map Erased bs) st = (None, st1)
    \<and> step st1 = Some current \<and> flashMultiplier st1 = flashMultiplier st
    \<and> eraseSize st \<le> eraseSize st1 \<and> eraseSize st1 \<le> int (length (data current))
    \<and> map_option bar_value (progressBar st1)
        = map_option (\<lambda>v. v + (eraseSize st1 - eraseSize st) * flashMultiplier st)
            (map_option bar_value (progressBar st))"
  using assms
proof (induction bs arbitrary: st)
  case Nil
  then show ?case by (simp add: option.map_ident)
next
  case (Cons b bs)
  obtain r st1 where one: "progress flashSteps u (Erased b) st = (r, st1)"
    by (cases "progress flashSteps u (Erased b) st") blast
  from Cons.prems have b: "0 \<le> b" by simp
  from erased_clamped[OF Cons.prems(1,2,3,4) b one]
  have r: "r = None" and s1: "step st1 = Some current"
    and lo: "eraseSize st \<le> eraseSize st1" and hi: "eraseSize st1 \<le> int (length (data current))"
    and bar: "progressBar st1 = map_option (\<lambda>b. b \<lparr> bar_value := bar_value b
                                  + (eraseSize st1 - eraseSize st) * flashMultiplier st \<rparr>)
            (progressBar st)"
    by simp_all
  have m1: "flashMultiplier st1 = flashMultiplier st"
    using one Cons.prems(1,2) by (auto simp: progress_def bar_increment_def split: if_splits)
  from Cons.prems lo have pre: "0 \<le> eraseSize st1" "\<forall>b\<in>set bs. 0 \<le> b" by auto
  from Cons.IH[OF Cons.prems(1) s1 pre(1) hi pre(2)] obtain st2 where
    run: "progressAll flashSteps u (map Erased bs) st1 = (None, st2)" and
    s2: "step st2 = Some current" and m2: "flashMultiplier st2 = flashMultiplier st1" and
    lo2: "eraseSize st1 \<le> eraseSize st2" and hi2: "eraseSize st2 \<le> int (length (data current))" and
    bar2: "map_option bar_value (progressBar st2)
        = map_option (\<lambda>v. v + (eraseSize st2 - eraseSize st1) * flashMultiplier st1)
            (map_option bar_value (progressBar st1))"
    by blast
  have "progressAll flashSteps u (map Erased (b # bs)) st = (None, st2)"
    using one r run by simp
  moreover have "map_option bar_value (progressBar st2)
        = map_option (\<lambda>v. v + (eraseSize st2 - eraseSize st) * flashMultiplier st)
            (map_option bar_value (progressBar st))"
    unfolding bar2 bar m1
    by (cases "progressBar st") (simp_all add: algebra_simps)
  ultimately show ?case using s2 m1 m2 lo lo2 hi2 by auto
qed

lemma example_twins_planned:
  "createFlashSteps example_dirs [example_partA, example_partB] True 32 = Inr example_twins"
  by (simp add: createFlashSteps_def planModule_def example_defs example_dirs_def
        example_partA_def example_partB_def example_twins_def Let_def spec_bulkStep_def
        DEVICE_OS_MIN_VERSION_TO_FORMAT_128K_USER_def)

lemma example_twins_names:
  "map name example_twins = [''part.bin'', ''part.bin'']
   \<and> map (\<lambda>s. length (data s)) example_twins = [8, 2]
   \<and> map flashMode example_twins = [dfu, dfu]"
  by (simp add: example_twins_def spec_bulkStep_def flashStep_def example_dirs_def
        example_basename_def example_defs example_partA_def example_partB_def)

text \<open>
  Claim C10 on two steps of one name, as the planner makes them for two files of one name.
  While the second step, of two bytes, is written, the handler looks the step up by its
  file name and finds the first, of eight bytes: the erase event of 4096 bytes is reported
  as eight bytes, more than the payload of the step being written, and after both steps
  the bar stands at 26 of a total of 20.
\<close>

theorem C10_erase_overshoots:
  "createFlashSteps example_dirs [example_partA, example_partB] True 32 = Inr example_twins
   \<and> map name example_twins = [''part.bin'', ''part.bin'']
   \<and> map (\<lambda>s. length (data s)) example_twins = [8, 2]
   \<and> map_option bar_value (progressBar (snd (progressAll example_twins example_ui
        [FlashFile ''part.bin'', Erased 4096, Downloaded 8, FlashFile ''part.bin'']
        (createFlashProgress example_twins example_ui)))) = Some 16
   \<and> map_option bar_value (progressBar (snd (progressAll example_twins example_ui
        [FlashFile ''part.bin'', Erased 4096, Downloaded 8, FlashFile ''part.bin'', Erased 4096]
        (createFlashProgress example_twins example_ui)))) = Some 24
   \<and> map_option bar_value (progressBar (snd (progressAll example_twins example_ui
        [FlashFile ''part.bin'', Erased 4096, Downloaded 8,
         FlashFile ''part.bin'', Erased 4096, Downloaded 2, Finish]
        (createFlashProgress example_twins example_ui)))) = Some 26
   \<and> map_option bar_total (progressBar (createFlashProgress example_twins example_ui)) = Some 20"
proof -
  obtain a b where tw: "example_twins = [a, b]" and
    n: "name a = ''part.bin''" "name b = ''part.bin''" and
    l: "length (data a) = 8" "length (data b) = 2" and
    m: "flashMode a = dfu" "flashMode b = dfu"
    using example_twins_names by (auto simp: example_twins_def)
  show ?thesis
    using example_twins_planned example_twins_names
    by (simp add: tw n l m progress_def createFlashProgress_def announce_def bar_update_def
          bar_increment_def bar_stop_def example_ui_def NORMAL_MULTIPLIER_def)
qed

end
